theory Spec2Isabelle
  imports Main "HOL-Library.AList"
begin

unbundle bit_operations_syntax

section \<open>JavaScript values used by BDF.js\<close>

text \<open>
  BDF.js is a JavaScript library: \<^verbatim>\<open>_populate\<close> reads the text of a BDF font into
  the fields \<^verbatim>\<open>meta\<close> and \<^verbatim>\<open>glyphs\<close> of a font object, and \<^verbatim>\<open>writeText\<close> stamps
  the glyphs of a text onto a bitmap.

  A JavaScript number is modelled as an integer or \<^verbatim>\<open>NaN\<close>; the value \<^verbatim>\<open>undefined\<close> of a
  property that was never set is \<open>None\<close> of an option type. Numbers with a fraction
  (and the two infinities) are outside the model: a BDF file holds integers. The
  integers of the model are unbounded; JavaScript's are exact up to \<open>2 ^ 53\<close>. A string
  is a list of 8-bit characters, each standing for the code unit of the same number.
\<close>

datatype jsnum = Num int | NaN

text \<open>
  What the code throws: \<open>Thrown msg\<close> is the string thrown by \<^verbatim>\<open>_populate\<close> (the spec's
  \<^verbatim>\<open>MalformedFont\<close>), \<open>TypeError\<close> is the error JavaScript itself raises when a property of
  \<^verbatim>\<open>null\<close> or \<^verbatim>\<open>undefined\<close> is read or written.
\<close>

datatype error = Thrown string | TypeError

fun js_add :: "jsnum \<Rightarrow> jsnum \<Rightarrow> jsnum" where
  "js_add (Num a) (Num b) = Num (a + b)"
| "js_add _ _ = NaN"

fun js_sub :: "jsnum \<Rightarrow> jsnum \<Rightarrow> jsnum" where
  "js_sub (Num a) (Num b) = Num (a - b)"
| "js_sub _ _ = NaN"

fun js_neg :: "jsnum \<Rightarrow> jsnum" where
  "js_neg (Num a) = Num (- a)"
| "js_neg NaN = NaN"

text \<open>\<^verbatim>\<open>a < b\<close>: false as soon as one side is \<^verbatim>\<open>NaN\<close>.\<close>

fun js_lt :: "jsnum \<Rightarrow> jsnum \<Rightarrow> bool" where
  "js_lt (Num a) (Num b) = (a < b)"
| "js_lt _ _ = False"

text \<open>\<^verbatim>\<open>Math.max(a, b)\<close>.\<close>

fun js_max :: "jsnum \<Rightarrow> jsnum \<Rightarrow> jsnum" where
  "js_max (Num a) (Num b) = Num (max a b)"
| "js_max _ _ = NaN"

text \<open>\<^verbatim>\<open>Math.ceil(w / 8)\<close> on an integer \<open>w\<close>.\<close>

fun ceil_div8 :: "jsnum \<Rightarrow> jsnum" where
  "ceil_div8 (Num w) = Num (- ((- w) div 8))"
| "ceil_div8 NaN = NaN"

text \<open>A property read in arithmetic: \<^verbatim>\<open>undefined\<close> converts to \<^verbatim>\<open>NaN\<close>.\<close>

fun to_number :: "jsnum option \<Rightarrow> jsnum" where
  "to_number None = NaN"
| "to_number (Some v) = v"

text \<open>\<^verbatim>\<open>v || 0\<close>: \<^verbatim>\<open>undefined\<close>, \<^verbatim>\<open>NaN\<close> and \<^verbatim>\<open>0\<close> are falsy.\<close>

fun or_zero :: "jsnum option \<Rightarrow> jsnum" where
  "or_zero (Some (Num n)) = Num n"
| "or_zero _ = Num 0"

text \<open>\<^verbatim>\<open>v--\<close> on a property: the new value of the property.\<close>

fun js_dec :: "jsnum option \<Rightarrow> jsnum option" where
  "js_dec (Some (Num n)) = Some (Num (n - 1))"
| "js_dec _ = Some NaN"

text \<open>
  The number of times the body of \<^verbatim>\<open>for (var v = 0; v < n; v++)\<close> runs, and the values
  \<open>v\<close> takes: none when \<open>n\<close> is \<^verbatim>\<open>NaN\<close> or not positive.
\<close>

fun count :: "jsnum \<Rightarrow> nat" where
  "count (Num n) = nat n"
| "count NaN = 0"

definition upto :: "jsnum \<Rightarrow> nat list" where
  "upto n = [0..<count n]"

text \<open>
  A loop whose body may throw: the body \<open>f v\<close> runs for each \<open>v\<close> in turn on the state,
  and the first error ends the loop.
\<close>

fun for_each :: "nat list \<Rightarrow> (nat \<Rightarrow> 's \<Rightarrow> error + 's) \<Rightarrow> 's \<Rightarrow> error + 's" where
  "for_each [] f s = Inr s"
| "for_each (v # vs) f s = (case f v s of Inl e \<Rightarrow> Inl e | Inr s' \<Rightarrow> for_each vs f s')"

text \<open>\<^verbatim>\<open>ToInt32\<close>, the conversion the bitwise operators apply to their operands.\<close>

definition toInt32 :: "int \<Rightarrow> int" where
  "toInt32 i = (i + 2147483648) mod 4294967296 - 2147483648"

text \<open>\<^verbatim>\<open>a | b\<close> on two values that may be \<^verbatim>\<open>undefined\<close> (which converts to 0).\<close>

definition js_bitor :: "int option \<Rightarrow> int option \<Rightarrow> int" where
  "js_bitor a b =
     (case a of None \<Rightarrow> 0 | Some i \<Rightarrow> toInt32 i) OR (case b of None \<Rightarrow> 0 | Some j \<Rightarrow> toInt32 j)"

text \<open>\<^verbatim>\<open>a & b\<close> on numbers (\<^verbatim>\<open>NaN\<close> converts to 0).\<close>

definition js_bitand :: "jsnum \<Rightarrow> int \<Rightarrow> int" where
  "js_bitand a b = (case a of NaN \<Rightarrow> 0 | Num i \<Rightarrow> toInt32 i) AND toInt32 b"

subsection \<open>Arrays\<close>

text \<open>
  A JavaScript array of numbers: its elements (\<open>None\<close> is a hole, read as
  \<^verbatim>\<open>undefined\<close>) and the properties stored under keys that are not indices (a negative
  number or \<^verbatim>\<open>NaN\<close>). Writing at or beyond the length extends the array; writing at a
  key that is not an index sets a property and leaves the length alone.
\<close>

record jsarray =
  elems :: "int option list"
  props :: "(jsnum \<times> int) list"

definition empty_array :: jsarray where
  "empty_array = \<lparr>elems = [], props = []\<rparr>"

fun arr_get :: "jsarray \<Rightarrow> jsnum \<Rightarrow> int option" where
  "arr_get a (Num i) =
     (if 0 \<le> i then (if nat i < length (elems a) then elems a ! nat i else None)
      else map_of (props a) (Num i))"
| "arr_get a NaN = map_of (props a) NaN"

fun arr_set :: "jsarray \<Rightarrow> jsnum \<Rightarrow> int \<Rightarrow> jsarray" where
  "arr_set a (Num i) v =
     (if 0 \<le> i then
        (if nat i < length (elems a) then a\<lparr>elems := (elems a)[nat i := Some v]\<rparr>
         else a\<lparr>elems := elems a @ replicate (nat i - length (elems a)) None @ [Some v]\<rparr>)
      else a\<lparr>props := AList.update (Num i) v (props a)\<rparr>)"
| "arr_set a NaN v = a\<lparr>props := AList.update NaN v (props a)\<rparr>"

subsection \<open>Strings\<close>

text \<open>
  The characters matched by \<^verbatim>\<open>\s\<close> and skipped by \<^verbatim>\<open>parseInt\<close>, among the code units
  below 256: tab, line feed, vertical tab, form feed, carriage return, space and the
  no-break space.
\<close>

definition is_space :: "char \<Rightarrow> bool" where
  "is_space c = (of_char c \<in> {9, 10, 11, 12, 13, 32, 160 :: nat})"

text \<open>
  \<^verbatim>\<open>s.split("\n")\<close> and \<^verbatim>\<open>s.split(/\s+/)\<close>. Both return at least one string; a string
  that begins or ends with a separator gives an empty first or last string.
\<close>

fun split_lines_from :: "string \<Rightarrow> string \<Rightarrow> string list" where
  "split_lines_from acc [] = [rev acc]"
| "split_lines_from acc (c # cs) =
     (if c = CHR 0x0A then rev acc # split_lines_from [] cs else split_lines_from (c # acc) cs)"

definition split_lines :: "string \<Rightarrow> string list" where
  "split_lines s = split_lines_from [] s"

fun split_space_from :: "bool \<Rightarrow> string \<Rightarrow> string \<Rightarrow> string list" where
  "split_space_from in_run acc [] = [rev acc]"
| "split_space_from in_run acc (c # cs) =
     (if is_space c then
        (if in_run then split_space_from True acc cs
         else rev acc # split_space_from True [] cs)
      else split_space_from False (c # acc) cs)"

definition split_space :: "string \<Rightarrow> string list" where
  "split_space s = split_space_from False [] s"

text \<open>\<^verbatim>\<open>data[k]\<close>: \<^verbatim>\<open>undefined\<close> beyond the end of the array.\<close>

definition item :: "'a list \<Rightarrow> nat \<Rightarrow> 'a option" where
  "item xs k = (if k < length xs then Some (xs ! k) else None)"

definition digit_value :: "char \<Rightarrow> nat option" where
  "digit_value c =
     (let n = of_char c :: nat in
      if 48 \<le> n \<and> n \<le> 57 then Some (n - 48)
      else if 65 \<le> n \<and> n \<le> 70 then Some (n - 55)
      else if 97 \<le> n \<and> n \<le> 102 then Some (n - 87)
      else None)"

definition is_digit :: "nat \<Rightarrow> char \<Rightarrow> bool" where
  "is_digit radix c = (case digit_value c of None \<Rightarrow> False | Some d \<Rightarrow> d < radix)"

definition digits_value :: "nat \<Rightarrow> string \<Rightarrow> int" where
  "digits_value radix ds = foldl (\<lambda>acc c. acc * int radix + (case digit_value c of None \<Rightarrow> 0 | Some d \<Rightarrow> int d)) 0 ds"

text \<open>
  \<^verbatim>\<open>+s\<close> on a token \<open>s\<close> of a line (a token holds no white space): \<^verbatim>\<open>undefined\<close> and
  every string that is not a number give \<^verbatim>\<open>NaN\<close>, the empty string gives 0, an
  optionally signed run of decimal digits gives its value. The literals of JavaScript
  that a BDF file does not use (a fraction, an exponent, a radix prefix, \<^verbatim>\<open>Infinity\<close>)
  are not modelled: they give \<^verbatim>\<open>NaN\<close> here.
\<close>

definition unsigned_decimal :: "string \<Rightarrow> jsnum" where
  "unsigned_decimal s = (if s \<noteq> [] \<and> list_all (is_digit 10) s then Num (digits_value 10 s) else NaN)"

definition unary_plus :: "string option \<Rightarrow> jsnum" where
  "unary_plus t =
     (case t of
        None \<Rightarrow> NaN
      | Some [] \<Rightarrow> Num 0
      | Some (c # cs) \<Rightarrow>
          if c = CHR ''-'' then js_neg (unsigned_decimal cs)
          else if c = CHR ''+'' then unsigned_decimal cs
          else unsigned_decimal (c # cs))"

text \<open>
  \<^verbatim>\<open>parseInt(s, 16)\<close>: leading white space is skipped, then a sign, then \<^verbatim>\<open>0x\<close> or
  \<^verbatim>\<open>0X\<close>; the longest run of hexadecimal digits that follows is the value, and
  \<^verbatim>\<open>NaN\<close> when that run is empty.
\<close>

definition strip_0x :: "string \<Rightarrow> string" where
  "strip_0x s =
     (case s of
        c # d # rest \<Rightarrow> if c = CHR ''0'' \<and> (d = CHR ''x'' \<or> d = CHR ''X'') then rest else s
      | _ \<Rightarrow> s)"

definition hex_digits :: "string \<Rightarrow> jsnum" where
  "hex_digits s =
     (let ds = takeWhile (is_digit 16) (strip_0x s)
      in if ds = [] then NaN else Num (digits_value 16 ds))"

definition parseInt16 :: "string \<Rightarrow> jsnum" where
  "parseInt16 s =
     (case dropWhile is_space s of
        [] \<Rightarrow> NaN
      | c # cs \<Rightarrow>
          if c = CHR ''-'' then js_neg (hex_digits cs)
          else if c = CHR ''+'' then hex_digits cs
          else hex_digits (c # cs))"

text \<open>\<^verbatim>\<open>s.substr(start, 2)\<close>.\<close>

definition substr2 :: "string \<Rightarrow> nat \<Rightarrow> string" where
  "substr2 s start = take 2 (drop start s)"

text \<open>\<^verbatim>\<open>String.fromCharCode(n)\<close>, as the code unit of the one-character result.\<close>

fun fromCharCode :: "jsnum \<Rightarrow> nat" where
  "fromCharCode (Num n) = nat (n mod 65536)"
| "fromCharCode NaN = 0"

section \<open>The font: \<^verbatim>\<open>meta\<close> and \<^verbatim>\<open>glyphs\<close>\<close>

text \<open>
  The objects the parser builds, one record for each shape of object, with the names
  of the source's properties (prefixed where two objects share a name). A property
  the parser may leave unset is an option.
\<close>

record font_size =
  points :: jsnum
  resolutionX :: jsnum
  resolutionY :: jsnum

record box =
  box_width :: jsnum
  box_height :: jsnum
  box_x :: jsnum
  box_y :: jsnum

record properties =
  fontDescent :: "jsnum option"
  fontAscent :: "jsnum option"
  defaultChar :: "jsnum option"

record meta =
  meta_version :: "string option"
  meta_name :: "string option"
  meta_size :: "font_size option"
  meta_boundingBox :: "box option"
  meta_properties :: "properties option"
  totalChars :: "jsnum option"

record glyph =
  glyph_name :: "string option"
  glyph_bytes :: "jsnum list"
  glyph_bitmap :: "int list list"
  glyph_code :: "jsnum option"
  glyph_char :: "nat option"
  scalableWidthX :: "jsnum option"
  scalableWidthY :: "jsnum option"
  deviceWidthX :: "jsnum option"
  deviceWidthY :: "jsnum option"
  glyph_boundingBox :: "box option"

text \<open>
  The object \<^verbatim>\<open>glyphs\<close>: its properties in the order they were first set. The key of
  \<^verbatim>\<open>glyphs[code]\<close> is the string of \<open>code\<close>, which is \<^verbatim>\<open>"undefined"\<close>, \<^verbatim>\<open>"NaN"\<close> or the
  decimal digits of an integer; the model keeps the value the string stands for.
  \<open>AList.update\<close> overwrites the value of a key where it stands and puts a new key last,
  as an assignment to a property does.
\<close>

type_synonym glyphs = "(jsnum option \<times> glyph) list"

text \<open>
  \<^verbatim>\<open>Object.keys(glyphs)\<close>: the keys that are array indices in ascending order, then the
  other keys in the order they were set.
\<close>

definition is_index :: "jsnum option \<Rightarrow> bool" where
  "is_index k = (case k of Some (Num n) \<Rightarrow> 0 \<le> n \<and> n < 4294967295 | _ \<Rightarrow> False)"

definition index_of :: "jsnum option \<Rightarrow> int" where
  "index_of k = (case k of Some (Num n) \<Rightarrow> n | _ \<Rightarrow> 0)"

definition object_keys :: "glyphs \<Rightarrow> jsnum option list" where
  "object_keys gs =
     sort_key index_of (filter is_index (map fst gs)) @ filter (\<lambda>k. \<not> is_index k) (map fst gs)"

text \<open>The font object: \<^verbatim>\<open>meta\<close> and \<^verbatim>\<open>glyphs\<close> are \<^verbatim>\<open>null\<close> until a font is loaded.\<close>

record bdf =
  bdf_meta :: "meta option"
  bdf_glyphs :: "glyphs option"

section \<open>\<^verbatim>\<open>_populate\<close>\<close>

text \<open>The local variables of \<^verbatim>\<open>_populate\<close>, with the two objects it assigns to the font.\<close>

record pstate =
  the_meta :: meta
  the_glyphs :: glyphs
  declarationStack :: "string list"
  currentChar :: "glyph option"

definition empty_meta :: meta where
  "empty_meta = \<lparr>meta_version = None, meta_name = None, meta_size = None,
     meta_boundingBox = None, meta_properties = None, totalChars = None\<rparr>"

definition initial_state :: pstate where
  "initial_state = \<lparr>the_meta = empty_meta, the_glyphs = [], declarationStack = [], currentChar = None\<rparr>"

text \<open>An assignment to a property of \<^verbatim>\<open>this.meta.properties\<close> or of \<^verbatim>\<open>currentChar\<close>.\<close>

definition set_property :: "(properties \<Rightarrow> properties) \<Rightarrow> pstate \<Rightarrow> error + pstate" where
  "set_property f s =
     (case meta_properties (the_meta s) of
        None \<Rightarrow> Inl TypeError
      | Some p \<Rightarrow> Inr (s\<lparr>the_meta := (the_meta s)\<lparr>meta_properties := Some (f p)\<rparr>\<rparr>))"

definition set_char :: "(glyph \<Rightarrow> glyph) \<Rightarrow> pstate \<Rightarrow> error + pstate" where
  "set_char f s =
     (case currentChar s of
        None \<Rightarrow> Inl TypeError
      | Some g \<Rightarrow> Inr (s\<lparr>currentChar := Some (f g)\<rparr>))"

text \<open>
  The eight assignments \<^verbatim>\<open>bitmap[row][byteIndex * 8 + (7 - bit)] = byte & (1 << bit) ? 1 : 0\<close>
  for \<open>bit\<close> from 7 down to 0: they fill the indices \<open>8 * byteIndex\<close> to
  \<open>8 * byteIndex + 7\<close> in ascending order, so they append these eight bits to a row that
  holds \<open>8 * byteIndex\<close> entries.
\<close>

definition byte_bits :: "jsnum \<Rightarrow> int list" where
  "byte_bits byte = map (\<lambda>bit. if js_bitand byte (push_bit bit 1) \<noteq> 0 then 1 else 0) [7, 6, 5, 4, 3, 2, 1, 0]"

text \<open>\<^verbatim>\<open>bitmap[row] = v\<close> for a row that is at most the length of \<open>bitmap\<close>.\<close>

definition set_row :: "'a list \<Rightarrow> nat \<Rightarrow> 'a \<Rightarrow> 'a list" where
  "set_row rows row v = (if row < length rows then rows[row := v] else rows @ [v])"

text \<open>
  The body of the loop over \<open>byteIndex\<close>: \<open>bytesLine\<close> is \<^verbatim>\<open>undefined\<close> when the file has
  no line left, and \<^verbatim>\<open>substr\<close> of it throws.
\<close>

definition decode_byte :: "string option \<Rightarrow> nat \<Rightarrow> nat \<Rightarrow> glyph \<Rightarrow> error + glyph" where
  "decode_byte bytesLine row byteIndex g =
     (case bytesLine of
        None \<Rightarrow> Inl TypeError
      | Some l \<Rightarrow>
          (let byteString = substr2 l (byteIndex * 2);
               byte = parseInt16 byteString
           in Inr (g\<lparr>glyph_bytes := glyph_bytes g @ [byte],
                     glyph_bitmap := (glyph_bitmap g)[row := glyph_bitmap g ! row @ byte_bits byte]\<rparr>)))"

text \<open>The body of the loop over \<open>row\<close>; \<open>i\<close> has grown by \<open>row\<close> since the loop began.\<close>

definition decode_row :: "string list \<Rightarrow> nat \<Rightarrow> jsnum \<Rightarrow> nat \<Rightarrow> glyph \<Rightarrow> error + glyph" where
  "decode_row fontLines i bytesPerLine row g =
     (let bytesLine = item fontLines (i + row + 1);
          g1 = g\<lparr>glyph_bitmap := set_row (glyph_bitmap g) row []\<rparr>
      in for_each (upto bytesPerLine) (decode_byte bytesLine row) g1)"

text \<open>The case \<^verbatim>\<open>BITMAP\<close>: the glyph it leaves and the new value of \<open>i\<close>.\<close>

definition decode_bitmap :: "string list \<Rightarrow> nat \<Rightarrow> glyph option \<Rightarrow> error + glyph \<times> nat" where
  "decode_bitmap fontLines i cur =
     (case cur of
        None \<Rightarrow> Inl TypeError
      | Some g \<Rightarrow>
          (case glyph_boundingBox g of
             None \<Rightarrow> Inl TypeError
           | Some b \<Rightarrow>
               (let bytesPerLine = ceil_div8 (box_width b)
                in case for_each (upto (box_height b)) (decode_row fontLines i bytesPerLine) g of
                     Inl e \<Rightarrow> Inl e
                   | Inr g' \<Rightarrow> Inr (g', i + count (box_height b)))))"

text \<open>
  The body of the loop over the lines: the \<^verbatim>\<open>switch\<close> on the first token of line \<open>i\<close>.
  It gives the new state and the value of \<open>i\<close> at the end of the body (only \<^verbatim>\<open>BITMAP\<close>
  moves it). A line with any other first token changes nothing.
\<close>

definition step :: "string list \<Rightarrow> nat \<Rightarrow> pstate \<Rightarrow> error + pstate \<times> nat" where
  "step fontLines i s =
     (let line = fontLines ! i;
          data = split_space line;
          declaration = (case data of [] \<Rightarrow> [] | d # _ \<Rightarrow> d);
          m = the_meta s
      in
      if declaration = ''STARTFONT'' then
        Inr (s\<lparr>declarationStack := declaration # declarationStack s,
               the_meta := m\<lparr>meta_version := item data 1\<rparr>\<rparr>, i)
      else if declaration = ''FONT'' then
        Inr (s\<lparr>the_meta := m\<lparr>meta_name := item data 1\<rparr>\<rparr>, i)
      else if declaration = ''SIZE'' then
        Inr (s\<lparr>the_meta := m\<lparr>meta_size := Some \<lparr>points = unary_plus (item data 1),
               resolutionX = unary_plus (item data 2),
               resolutionY = unary_plus (item data 3)\<rparr>\<rparr>\<rparr>, i)
      else if declaration = ''FONTBOUNDINGBOX'' then
        Inr (s\<lparr>the_meta := m\<lparr>meta_boundingBox := Some \<lparr>box_width = unary_plus (item data 1),
               box_height = unary_plus (item data 2),
               box_x = unary_plus (item data 3),
               box_y = unary_plus (item data 4)\<rparr>\<rparr>\<rparr>, i)
      else if declaration = ''STARTPROPERTIES'' then
        Inr (s\<lparr>declarationStack := declaration # declarationStack s,
               the_meta := m\<lparr>meta_properties :=
                 Some \<lparr>fontDescent = None, fontAscent = None, defaultChar = None\<rparr>\<rparr>\<rparr>, i)
      else if declaration = ''FONT_DESCENT'' then
        map_sum id (\<lambda>s'. (s', i)) (set_property (fontDescent_update (\<lambda>_. Some (unary_plus (item data 1)))) s)
      else if declaration = ''FONT_ASCENT'' then
        map_sum id (\<lambda>s'. (s', i)) (set_property (fontAscent_update (\<lambda>_. Some (unary_plus (item data 1)))) s)
      else if declaration = ''DEFAULT_CHAR'' then
        map_sum id (\<lambda>s'. (s', i)) (set_property (defaultChar_update (\<lambda>_. Some (unary_plus (item data 1)))) s)
      else if declaration = ''ENDPROPERTIES'' then
        Inr (s\<lparr>declarationStack := tl (declarationStack s)\<rparr>, i)
      else if declaration = ''CHARS'' then
        Inr (s\<lparr>the_meta := m\<lparr>totalChars := Some (unary_plus (item data 1))\<rparr>\<rparr>, i)
      else if declaration = ''STARTCHAR'' then
        Inr (s\<lparr>declarationStack := declaration # declarationStack s,
               currentChar := Some \<lparr>glyph_name = item data 1, glyph_bytes = [], glyph_bitmap = [],
                 glyph_code = None, glyph_char = None, scalableWidthX = None, scalableWidthY = None,
                 deviceWidthX = None, deviceWidthY = None, glyph_boundingBox = None\<rparr>\<rparr>, i)
      else if declaration = ''ENCODING'' then
        map_sum id (\<lambda>s'. (s', i))
          (set_char (\<lambda>g. g\<lparr>glyph_code := Some (unary_plus (item data 1)),
                            glyph_char := Some (fromCharCode (unary_plus (item data 1)))\<rparr>) s)
      else if declaration = ''SWIDTH'' then
        map_sum id (\<lambda>s'. (s', i))
          (set_char (\<lambda>g. g\<lparr>scalableWidthX := Some (unary_plus (item data 1)),
                            scalableWidthY := Some (unary_plus (item data 2))\<rparr>) s)
      else if declaration = ''DWIDTH'' then
        map_sum id (\<lambda>s'. (s', i))
          (set_char (\<lambda>g. g\<lparr>deviceWidthX := Some (unary_plus (item data 1)),
                            deviceWidthY := Some (unary_plus (item data 2))\<rparr>) s)
      else if declaration = ''BBX'' then
        map_sum id (\<lambda>s'. (s', i))
          (set_char (\<lambda>g. g\<lparr>glyph_boundingBox := Some \<lparr>box_width = unary_plus (item data 1),
                            box_height = unary_plus (item data 2),
                            box_x = unary_plus (item data 3),
                            box_y = unary_plus (item data 4)\<rparr>\<rparr>) s)
      else if declaration = ''BITMAP'' then
        (case decode_bitmap fontLines i (currentChar s) of
           Inl e \<Rightarrow> Inl e
         | Inr (g, i') \<Rightarrow> Inr (s\<lparr>currentChar := Some g\<rparr>, i'))
      else if declaration = ''ENDCHAR'' then
        (case currentChar s of
           None \<Rightarrow> Inl TypeError
         | Some g \<Rightarrow>
             Inr (s\<lparr>declarationStack := tl (declarationStack s),
                    the_glyphs := AList.update (glyph_code g) g (the_glyphs s),
                    currentChar := None\<rparr>, i))
      else if declaration = ''ENDFONT'' then
        Inr (s\<lparr>declarationStack := tl (declarationStack s)\<rparr>, i)
      else Inr (s, i))"

lemma step_index: "step fontLines i s = Inr (s', i') \<Longrightarrow> i \<le> i'"
  by (auto simp: step_def Let_def decode_bitmap_def map_sum_def
           split: if_splits sum.splits option.splits prod.splits)

text \<open>
  The loop \<^verbatim>\<open>for (var i = 0; i < fontLines.length; i++)\<close>, from the value \<open>i\<close> on. When
  the body throws, the two objects of the font are as the last completed line left
  them: every case throws before it assigns to them.
\<close>

function populate_loop :: "string list \<Rightarrow> nat \<Rightarrow> pstate \<Rightarrow> error option \<times> pstate" where
  "populate_loop fontLines i s =
     (if i < length fontLines then
        (case step fontLines i s of
           Inl e \<Rightarrow> (Some e, s)
         | Inr (s', i') \<Rightarrow> populate_loop fontLines (Suc i') s')
      else (None, s))"
  by pat_completeness auto
termination
  by (relation "measure (\<lambda>(fontLines, i, s). length fontLines - i)")
     (auto dest: step_index)

declare populate_loop.simps [simp del]

text \<open>
  \<^verbatim>\<open>_populate(path, data)\<close> on the font object \<open>this\<close>: the error it throws, if any, and
  the font object it leaves. \<open>data\<close> is \<open>None\<close> for \<^verbatim>\<open>undefined\<close> (the file could not be
  read).
\<close>

definition populate :: "bdf \<Rightarrow> string \<Rightarrow> string option \<Rightarrow> error option \<times> bdf" where
  "populate this path data =
     (case data of
        None \<Rightarrow> (Some (Thrown (''Couldn't understand this font: '' @ path)), this)
      | Some d \<Rightarrow>
          if d = [] then (Some (Thrown (''Couldn't understand this font: '' @ path)), this)
          else
            (let fontLines = split_lines d;
                 (err, s) = populate_loop fontLines 0 initial_state;
                 this' = this\<lparr>bdf_meta := Some (the_meta s), bdf_glyphs := Some (the_glyphs s)\<rparr>
             in case err of
                  Some e \<Rightarrow> (Some e, this')
                | None \<Rightarrow>
                    if declarationStack s \<noteq> []
                    then (Some (Thrown (''Couldn't correctly parse font at: '' @ path)), this')
                    else (None, this')))"

section \<open>\<^verbatim>\<open>writeText\<close>\<close>

text \<open>
  The bitmap \<^verbatim>\<open>_bitmap\<close>: its properties \<^verbatim>\<open>width\<close> and \<^verbatim>\<open>height\<close>, and the arrays stored
  under the keys 0, 1, 2 and so on. \<^verbatim>\<open>_bitmap[row]\<close> is \<^verbatim>\<open>undefined\<close> for every other
  \<open>row\<close>.
\<close>

record bitmap =
  bitmap_width :: jsnum
  bitmap_height :: jsnum
  bitmap_rows :: "jsarray list"

record options =
  textRepeat :: "jsnum option"
  kerningBias :: "jsnum option"

definition get_row :: "bitmap \<Rightarrow> jsnum \<Rightarrow> jsarray option" where
  "get_row bm row =
     (case row of
        NaN \<Rightarrow> None
      | Num r \<Rightarrow> if 0 \<le> r \<and> nat r < length (bitmap_rows bm) then Some (bitmap_rows bm ! nat r) else None)"

text \<open>\<^verbatim>\<open>_bitmap[row][column]\<close>, for reading the result.\<close>

definition cell :: "bitmap \<Rightarrow> jsnum \<Rightarrow> jsnum \<Rightarrow> int option" where
  "cell bm row column = (case get_row bm row of None \<Rightarrow> None | Some a \<Rightarrow> arr_get a column)"

text \<open>
  \<^verbatim>\<open>_bitmap[row][column] = f(_bitmap[row][column])\<close>: a \<^verbatim>\<open>TypeError\<close> when
  \<^verbatim>\<open>_bitmap[row]\<close> is \<^verbatim>\<open>undefined\<close>; the column is never checked.
\<close>

definition update_cell :: "jsnum \<Rightarrow> jsnum \<Rightarrow> (int option \<Rightarrow> int) \<Rightarrow> bitmap \<Rightarrow> error + bitmap" where
  "update_cell row column f bm =
     (case get_row bm row of
        None \<Rightarrow> Inl TypeError
      | Some a \<Rightarrow>
          Inr (bm\<lparr>bitmap_rows := (bitmap_rows bm)[count row := arr_set a column (f (arr_get a column))]\<rparr>))"

text \<open>The bitmap made when the caller passes none.\<close>

definition new_bitmap :: "jsnum \<Rightarrow> bitmap" where
  "new_bitmap height =
     \<lparr>bitmap_width = Num 0, bitmap_height = height,
      bitmap_rows = map (\<lambda>row. empty_array) (upto height)\<rparr>"

text \<open>\<^verbatim>\<open>this.glyphs[k]\<close>.\<close>

definition glyph_at :: "glyphs \<Rightarrow> jsnum option \<Rightarrow> glyph option" where
  "glyph_at gs k = map_of gs k"

text \<open>
  The glyph for a character code, with the replacements for a character the font
  lacks. Reading \<^verbatim>\<open>this.meta.properties.defaultChar\<close> throws when the font has no
  properties. The result is \<^verbatim>\<open>undefined\<close> when every replacement is missing:
  \<^verbatim>\<open>keys[0]\<close> is \<^verbatim>\<open>undefined\<close> for an object with no keys.
\<close>

definition resolve_glyph :: "meta \<Rightarrow> glyphs \<Rightarrow> nat \<Rightarrow> error + glyph option" where
  "resolve_glyph m gs charCode =
     (case glyph_at gs (Some (Num (int charCode))) of
        Some g \<Rightarrow> Inr (Some g)
      | None \<Rightarrow>
          (case meta_properties m of
             None \<Rightarrow> Inl TypeError
           | Some p \<Rightarrow>
               (case glyph_at gs (defaultChar p) of
                  Some g \<Rightarrow> Inr (Some g)
                | None \<Rightarrow>
                    (case glyph_at gs (Some (Num 63)) of
                       Some g \<Rightarrow> Inr (Some g)
                     | None \<Rightarrow> Inr (glyph_at gs (case object_keys gs of [] \<Rightarrow> None | k # _ \<Rightarrow> k))))))"

text \<open>The loop "Extend bitmap to the right with zeros".\<close>

definition extend_bitmap :: "jsnum \<Rightarrow> jsnum \<Rightarrow> bitmap \<Rightarrow> error + bitmap" where
  "extend_bitmap height columnsToAdd bm =
     for_each (upto height) (\<lambda>row.
       for_each (upto columnsToAdd) (\<lambda>glyphColumn bm'.
         update_cell (Num (int row)) (js_add (Num (int glyphColumn)) (bitmap_width bm')) (\<lambda>_. 0) bm')) bm"

text \<open>
  The loop "Draw the glyph". \<^verbatim>\<open>glyphData.bitmap[y]\<close> is \<^verbatim>\<open>undefined\<close> beyond the rows
  the glyph has, and reading \<open>[x]\<close> of it throws; \<^verbatim>\<open>glyphData.bitmap[y][x]\<close> is
  \<^verbatim>\<open>undefined\<close> beyond the end of the row.
\<close>

definition draw_bit :: "glyph \<Rightarrow> box \<Rightarrow> jsnum \<Rightarrow> jsnum \<Rightarrow> nat \<Rightarrow> nat \<Rightarrow> bitmap \<Rightarrow> error + bitmap" where
  "draw_bit glyphData b rowStart xpos y x' bm =
     (let row = js_add rowStart (Num (int y));
          column = js_add (js_add xpos (box_x b)) (Num (int x'))
      in case get_row bm row of
           None \<Rightarrow> Inl TypeError
         | Some _ \<Rightarrow>
             (case item (glyph_bitmap glyphData) y of
                None \<Rightarrow> Inl TypeError
              | Some bits \<Rightarrow> update_cell row column (\<lambda>old. js_bitor old (item bits x')) bm))"

definition draw_glyph :: "glyph \<Rightarrow> box \<Rightarrow> jsnum \<Rightarrow> jsnum \<Rightarrow> bitmap \<Rightarrow> error + bitmap" where
  "draw_glyph glyphData b rowStart xpos bm =
     for_each (upto (box_height b)) (\<lambda>y.
       for_each (upto (box_width b)) (draw_bit glyphData b rowStart xpos y)) bm"

text \<open>
  The body of the loop over the characters of the text, on the bitmap and \<open>xpos\<close>.
\<close>

definition write_char ::
  "meta \<Rightarrow> glyphs option \<Rightarrow> jsnum \<Rightarrow> jsnum \<Rightarrow> jsnum \<Rightarrow> char \<Rightarrow> bitmap \<times> jsnum \<Rightarrow> error + bitmap \<times> jsnum" where
  "write_char m glyphs height baseline kerning c st =
     (case glyphs of
        None \<Rightarrow> Inl TypeError
      | Some gs \<Rightarrow>
          (case resolve_glyph m gs (of_char c) of
             Inl e \<Rightarrow> Inl e
           | Inr None \<Rightarrow> Inl TypeError
           | Inr (Some glyphData) \<Rightarrow>
               (case glyph_boundingBox glyphData of
                  None \<Rightarrow> Inl TypeError
                | Some b \<Rightarrow>
                    (let bm = fst st;
                         rowStart = js_sub (js_sub baseline (box_y b)) (box_height b);
                         columnsToAdd = js_max (to_number (deviceWidthX glyphData)) (box_width b);
                         shift = js_lt (bitmap_width bm) (js_neg (box_x b));
                         xpos = (if shift then js_neg (box_x b) else snd st);
                         columnsToAdd = (if shift then js_add columnsToAdd xpos else columnsToAdd)
                     in case extend_bitmap height columnsToAdd bm of
                          Inl e \<Rightarrow> Inl e
                        | Inr bm1 \<Rightarrow>
                            (let bm2 = bm1\<lparr>bitmap_width := js_add (bitmap_width bm1) columnsToAdd\<rparr>
                             in case draw_glyph glyphData b rowStart xpos bm2 of
                                  Inl e \<Rightarrow> Inl e
                                | Inr bm3 \<Rightarrow>
                                    Inr (bm3, js_add xpos
                                      (js_add (to_number (deviceWidthX glyphData)) kerning)))))))"

fun write_chars ::
  "meta \<Rightarrow> glyphs option \<Rightarrow> jsnum \<Rightarrow> jsnum \<Rightarrow> jsnum \<Rightarrow> string \<Rightarrow> bitmap \<times> jsnum \<Rightarrow> error + bitmap \<times> jsnum" where
  "write_chars m glyphs height baseline kerning [] st = Inr st"
| "write_chars m glyphs height baseline kerning (c # cs) st =
     (case write_char m glyphs height baseline kerning c st of
        Inl e \<Rightarrow> Inl e
      | Inr st' \<Rightarrow> write_chars m glyphs height baseline kerning cs st')"

text \<open>
  One run of the body of \<^verbatim>\<open>writeText\<close> up to the test of \<open>textRepeat\<close>: \<open>xpos\<close> starts
  at 0 in every run, also when the bitmap of an earlier run is passed in.
\<close>

definition write_pass :: "bdf \<Rightarrow> string \<Rightarrow> jsnum \<Rightarrow> bitmap option \<Rightarrow> error + bitmap" where
  "write_pass this text kerning bitmap0 =
     (case bdf_meta this of
        None \<Rightarrow> Inl TypeError
      | Some m \<Rightarrow>
          (case meta_boundingBox m of
             None \<Rightarrow> Inl TypeError
           | Some fb \<Rightarrow>
               (let height = box_height fb;
                    yoffset = box_y fb;
                    baseline = js_add height yoffset;
                    xpos = Num 0;
                    bm = (case bitmap0 of None \<Rightarrow> new_bitmap height | Some given \<Rightarrow> given)
                in map_sum id fst
                     (write_chars m (bdf_glyphs this) height baseline kerning text (bm, xpos)))))"

text \<open>
  \<^verbatim>\<open>writeText(text, options, _bitmap)\<close>: what it returns or throws, and the caller's
  \<open>options\<close> object afterwards (\<open>None\<close> when the caller passed none: the object made by
  \<^verbatim>\<open>options || {}\<close> is not the caller's). In the source every repeat is a call of
  \<^verbatim>\<open>writeText\<close> inside the call before, one stack frame deeper, and an engine throws a
  \<^verbatim>\<open>RangeError\<close> when its stack is full. The model has no bound on the depth: what it
  says of a call that repeats is true of the program as long as the stack suffices.
\<close>

function writeText ::
  "bdf \<Rightarrow> string \<Rightarrow> options option \<Rightarrow> bitmap option \<Rightarrow> (error + bitmap) \<times> options option" where
  "writeText this text opts bitmap0 =
     (let options = (case opts of None \<Rightarrow> \<lparr>textRepeat = None, kerningBias = None\<rparr> | Some given \<Rightarrow> given);
          repeat = or_zero (textRepeat options);
          kerning = or_zero (kerningBias options)
      in case write_pass this text kerning bitmap0 of
           Inl e \<Rightarrow> (Inl e, opts)
         | Inr bm \<Rightarrow>
             if js_lt (Num 0) repeat
             then writeText this text (Some (options\<lparr>textRepeat := js_dec (textRepeat options)\<rparr>)) (Some bm)
             else (Inr bm, opts))"
  by pat_completeness auto
termination
  by (relation "measure (\<lambda>(this, text, opts, bitmap0).
        count (or_zero (case opts of None \<Rightarrow> None | Some given \<Rightarrow> textRepeat given)))")
     (auto split: option.splits elim!: or_zero.elims js_lt.elims)

declare writeText.simps [simp del]

section \<open>Notions used in the statements\<close>

text \<open>The keys of \<open>glyphs\<close> are the codes of the glyphs stored under them.\<close>

definition keys_are_codes :: "glyphs \<Rightarrow> bool" where
  "keys_are_codes gs = (\<forall>(k, g) \<in> set gs. glyph_code g = k)"

text \<open>
  The bytes the case \<^verbatim>\<open>BITMAP\<close> reads for one row of a glyph, from the line \<open>row + 1\<close>
  lines below line \<open>i\<close>, and the bits it stores for that row: all eight bits of
  every byte.
\<close>

definition row_bytes :: "string list \<Rightarrow> nat \<Rightarrow> nat \<Rightarrow> nat \<Rightarrow> jsnum list" where
  "row_bytes fontLines i n row =
     (case item fontLines (i + row + 1) of
        None \<Rightarrow> []
      | Some l \<Rightarrow> map (\<lambda>byteIndex. parseInt16 (substr2 l (byteIndex * 2))) [0..<n])"

definition row_bits :: "string list \<Rightarrow> nat \<Rightarrow> nat \<Rightarrow> nat \<Rightarrow> int list" where
  "row_bits fontLines i n row = concat (map byte_bits (row_bytes fontLines i n row))"


text \<open>
  \<open>rowStart\<close> for a glyph with bounding box \<open>b\<close> in a font with bounding box \<open>fb\<close>, and the
  test that row \<open>y\<close> of the glyph falls on no row of a bitmap as high as the font.
\<close>

definition row_start :: "box \<Rightarrow> box \<Rightarrow> jsnum" where
  "row_start fb b = js_sub (js_sub (js_add (box_height fb) (box_y fb)) (box_y b)) (box_height b)"

definition row_outside :: "box \<Rightarrow> box \<Rightarrow> nat \<Rightarrow> bool" where
  "row_outside fb b y =
     (case js_add (row_start fb b) (Num (int y)) of
        NaN \<Rightarrow> True
      | Num r \<Rightarrow> r < 0 \<or> int (count (box_height fb)) \<le> r)"

text \<open>
  A glyph that \<^verbatim>\<open>writeText\<close> can stamp: it has a bounding box and, unless the box is
  empty, a row of bits for each row of the box, all of them inside the bitmap.
\<close>

definition stampable :: "box \<Rightarrow> glyph \<Rightarrow> bool" where
  "stampable fb g =
     (case glyph_boundingBox g of
        None \<Rightarrow> False
      | Some b \<Rightarrow>
          count (box_width b) = 0 \<or> count (box_height b) = 0 \<or>
          (count (box_height b) \<le> length (glyph_bitmap g) \<and>
           list_all (\<lambda>y. \<not> row_outside fb b y) (upto (box_height b))))"

text \<open>Two bitmaps with the same number of rows, the same width and the same height.\<close>

definition same_frame :: "bitmap \<Rightarrow> bitmap \<Rightarrow> bool" where
  "same_frame bm bm' =
     (length (bitmap_rows bm') = length (bitmap_rows bm) \<and>
      bitmap_width bm' = bitmap_width bm \<and> bitmap_height bm' = bitmap_height bm)"

text \<open>
  The bitmap \<open>t\<close> in the middle of a loop over a block of cells of \<open>bm\<close>, the block of
  \<open>w\<close> columns from column \<open>c0\<close> and of the rows from \<open>rs\<close>: the rows before row \<open>y\<close> of
  the block are done, and so are the first \<open>k\<close> cells of row \<open>y\<close>. A cell that is done
  holds \<open>F\<close> of its place in the block and of its old value; the others are untouched.
\<close>

definition stamped ::
  "bitmap \<Rightarrow> int \<Rightarrow> int \<Rightarrow> nat \<Rightarrow> (nat \<Rightarrow> nat \<Rightarrow> int option \<Rightarrow> int) \<Rightarrow> nat \<Rightarrow> nat \<Rightarrow> bitmap \<Rightarrow> bool" where
  "stamped bm rs c0 w F y k t =
     (same_frame bm t \<and>
      (\<forall>r c. cell t (Num r) (Num c) =
         (if rs \<le> r \<and> c0 \<le> c \<and> c < c0 + int w \<and> (r < rs + int y \<or> r = rs + int y \<and> c < c0 + int k)
          then Some (F (nat (r - rs)) (nat (c - c0)) (cell bm (Num r) (Num c)))
          else cell bm (Num r) (Num c))))"

section \<open>Example fonts\<close>

text \<open>The font object before any font is loaded.\<close>

definition unloaded :: bdf where
  "unloaded = \<lparr>bdf_meta = None, bdf_glyphs = None\<rparr>"

text \<open>The text of a file, from its lines.\<close>

definition unlines :: "string list \<Rightarrow> string" where
  "unlines ls = concat (map (\<lambda>l. l @ [CHR 0x0A]) (butlast ls)) @ last ls"

text \<open>
  A font of one glyph, \<open>A\<close>, two columns wide and one row high, with ink in its left
  column: the lines of its file and the font object \<^verbatim>\<open>_populate\<close> makes of them.
\<close>

definition source_A :: "string list" where
  "source_A = [''STARTFONT 2.1'', ''FONTBOUNDINGBOX 2 1 0 0'', ''STARTCHAR A'', ''ENCODING 65'',
     ''DWIDTH 2 0'', ''BBX 2 1 0 0'', ''BITMAP'', ''80'', ''ENDCHAR'', ''ENDFONT'']"

definition glyph_A :: glyph where
  "glyph_A = \<lparr>glyph_name = Some ''A'', glyph_bytes = [Num 128],
     glyph_bitmap = [[1, 0, 0, 0, 0, 0, 0, 0]], glyph_code = Some (Num 65), glyph_char = Some 65,
     scalableWidthX = None, scalableWidthY = None, deviceWidthX = Some (Num 2),
     deviceWidthY = Some (Num 0),
     glyph_boundingBox = Some \<lparr>box_width = Num 2, box_height = Num 1, box_x = Num 0, box_y = Num 0\<rparr>\<rparr>"

definition meta_A :: meta where
  "meta_A = \<lparr>meta_version = Some ''2.1'', meta_name = None, meta_size = None,
     meta_boundingBox = Some \<lparr>box_width = Num 2, box_height = Num 1, box_x = Num 0, box_y = Num 0\<rparr>,
     meta_properties = None, totalChars = None\<rparr>"

definition font_A :: bdf where
  "font_A = \<lparr>bdf_meta = Some meta_A, bdf_glyphs = Some [(Some (Num 65), glyph_A)]\<rparr>"

text \<open>A glyph four columns wide, whose one row is the byte 40: before and after \<^verbatim>\<open>BITMAP\<close>.\<close>

definition fresh_4 :: glyph where
  "fresh_4 = \<lparr>glyph_name = Some ''A'', glyph_bytes = [], glyph_bitmap = [],
     glyph_code = Some (Num 65), glyph_char = Some 65,
     scalableWidthX = None, scalableWidthY = None, deviceWidthX = None, deviceWidthY = None,
     glyph_boundingBox = Some \<lparr>box_width = Num 4, box_height = Num 1, box_x = Num 0, box_y = Num 0\<rparr>\<rparr>"

definition glyph_4 :: glyph where
  "glyph_4 = fresh_4\<lparr>glyph_bytes := [Num 64], glyph_bitmap := [[0, 1, 0, 0, 0, 0, 0, 0]]\<rparr>"

definition source_4 :: "string list" where
  "source_4 = [''STARTCHAR A'', ''ENCODING 65'', ''BBX 4 1 0 0'', ''BITMAP'', ''40'', ''ENDCHAR'']"

text \<open>A glyph with a bounding box and no \<^verbatim>\<open>BITMAP\<close>.\<close>

definition glyph_B :: glyph where
  "glyph_B = \<lparr>glyph_name = Some ''B'', glyph_bytes = [], glyph_bitmap = [],
     glyph_code = Some (Num 66), glyph_char = Some 66,
     scalableWidthX = None, scalableWidthY = None, deviceWidthX = None, deviceWidthY = None,
     glyph_boundingBox = Some \<lparr>box_width = Num 8, box_height = Num 1, box_x = Num 0, box_y = Num 0\<rparr>\<rparr>"

definition source_B :: "string list" where
  "source_B = [''STARTCHAR B'', ''ENCODING 66'', ''BBX 8 1 0 0'', ''ENDCHAR'']"

text \<open>The glyph \<open>A\<close> with ink in both columns and its box three columns left of the origin.\<close>

definition glyph_N :: glyph where
  "glyph_N = \<lparr>glyph_name = Some ''A'', glyph_bytes = [Num 192],
     glyph_bitmap = [[1, 1, 0, 0, 0, 0, 0, 0]], glyph_code = Some (Num 65), glyph_char = Some 65,
     scalableWidthX = None, scalableWidthY = None, deviceWidthX = Some (Num 2),
     deviceWidthY = Some (Num 0),
     glyph_boundingBox = Some \<lparr>box_width = Num 2, box_height = Num 1, box_x = Num (- 3), box_y = Num 0\<rparr>\<rparr>"

definition font_N :: bdf where
  "font_N = \<lparr>bdf_meta = Some meta_A, bdf_glyphs = Some [(Some (Num 65), glyph_N)]\<rparr>"

definition source_N :: "string list" where
  "source_N = [''STARTFONT 2.1'', ''FONTBOUNDINGBOX 2 1 0 0'', ''STARTCHAR A'', ''ENCODING 65'',
     ''DWIDTH 2 0'', ''BBX 2 1 -3 0'', ''BITMAP'', ''C0'', ''ENDCHAR'', ''ENDFONT'']"

text \<open>A glyph two rows high in a font one row high.\<close>

definition glyph_T :: glyph where
  "glyph_T = \<lparr>glyph_name = Some ''A'', glyph_bytes = [Num 128, Num 128],
     glyph_bitmap = [[1, 0, 0, 0, 0, 0, 0, 0], [1, 0, 0, 0, 0, 0, 0, 0]],
     glyph_code = Some (Num 65), glyph_char = Some 65,
     scalableWidthX = None, scalableWidthY = None, deviceWidthX = Some (Num 2),
     deviceWidthY = Some (Num 0),
     glyph_boundingBox = Some \<lparr>box_width = Num 1, box_height = Num 2, box_x = Num 0, box_y = Num 0\<rparr>\<rparr>"

definition font_T :: bdf where
  "font_T = \<lparr>bdf_meta = Some meta_A, bdf_glyphs = Some [(Some (Num 65), glyph_T)]\<rparr>"

definition source_T :: "string list" where
  "source_T = [''STARTFONT 2.1'', ''FONTBOUNDINGBOX 2 1 0 0'', ''STARTCHAR A'', ''ENCODING 65'',
     ''DWIDTH 2 0'', ''BBX 1 2 0 0'', ''BITMAP'', ''80'', ''80'', ''ENDCHAR'', ''ENDFONT'']"

text \<open>A glyph whose box lies three columns right of the origin, beyond its advance width.\<close>

definition glyph_R :: glyph where
  "glyph_R = \<lparr>glyph_name = Some ''A'', glyph_bytes = [Num 128],
     glyph_bitmap = [[1, 0, 0, 0, 0, 0, 0, 0]],
     glyph_code = Some (Num 65), glyph_char = Some 65,
     scalableWidthX = None, scalableWidthY = None, deviceWidthX = Some (Num 2),
     deviceWidthY = Some (Num 0),
     glyph_boundingBox = Some \<lparr>box_width = Num 1, box_height = Num 1, box_x = Num 3, box_y = Num 0\<rparr>\<rparr>"

definition font_R :: bdf where
  "font_R = \<lparr>bdf_meta = Some meta_A, bdf_glyphs = Some [(Some (Num 65), glyph_R)]\<rparr>"

definition source_R :: "string list" where
  "source_R = [''STARTFONT 2.1'', ''FONTBOUNDINGBOX 2 1 0 0'', ''STARTCHAR A'', ''ENCODING 65'',
     ''DWIDTH 2 0'', ''BBX 1 1 3 0'', ''BITMAP'', ''80'', ''ENDCHAR'', ''ENDFONT'']"

text \<open>
  The font of the glyph \<open>A\<close>, with properties, and the same font with the glyph two
  rows high in place of \<open>A\<close>.
\<close>

definition meta_P :: meta where
  "meta_P = meta_A\<lparr>meta_properties := Some \<lparr>fontDescent = None, fontAscent = None, defaultChar = Some (Num 0)\<rparr>\<rparr>"

definition font_P :: bdf where
  "font_P = \<lparr>bdf_meta = Some meta_P, bdf_glyphs = Some [(Some (Num 65), glyph_A)]\<rparr>"


definition source_P :: "string list" where
  "source_P = [''STARTFONT 2.1'', ''FONTBOUNDINGBOX 2 1 0 0'', ''STARTPROPERTIES 1'', ''DEFAULT_CHAR 0'',
     ''ENDPROPERTIES'', ''STARTCHAR A'', ''ENCODING 65'',
     ''DWIDTH 2 0'', ''BBX 2 1 0 0'', ''BITMAP'', ''80'', ''ENDCHAR'', ''ENDFONT'']"

text \<open>The definitions that evaluate \<^verbatim>\<open>_populate\<close> and \<^verbatim>\<open>writeText\<close> on a given input.\<close>

lemmas parse_defs = populate_def split_lines_def populate_loop.simps step_def split_space_def
  is_space_def item_def initial_state_def empty_meta_def unary_plus_def unsigned_decimal_def
  is_digit_def digit_value_def digits_value_def set_char_def set_property_def
  decode_bitmap_def decode_row_def decode_byte_def upto_def set_row_def substr2_def parseInt16_def
  hex_digits_def strip_0x_def byte_bits_def js_bitand_def toInt32_def upt_conv_Cons
  unlines_def unloaded_def Let_def

lemmas write_defs = writeText.simps write_pass_def write_char_def resolve_glyph_def glyph_at_def
  extend_bitmap_def draw_glyph_def draw_bit_def update_cell_def get_row_def upto_def new_bitmap_def
  js_bitor_def toInt32_def item_def empty_array_def Let_def upt_conv_Cons

lemmas stamp_defs = stampable_def row_outside_def row_start_def upto_def

text \<open>\<^verbatim>\<open>_populate\<close> makes these font objects of these files.\<close>

lemma populate_source_A: "populate unloaded ''a.bdf'' (Some (unlines source_A)) = (None, font_A)"
  by (simp add: font_A_def meta_A_def glyph_A_def source_A_def parse_defs)

lemma populate_source_4:
  "populate unloaded ''a.bdf'' (Some (unlines source_4)) =
     (None, \<lparr>bdf_meta = Some empty_meta, bdf_glyphs = Some [(Some (Num 65), glyph_4)]\<rparr>)"
  by (simp add: glyph_4_def fresh_4_def source_4_def parse_defs)

lemma populate_source_B:
  "populate unloaded ''a.bdf'' (Some (unlines source_B)) =
     (None, \<lparr>bdf_meta = Some empty_meta, bdf_glyphs = Some [(Some (Num 66), glyph_B)]\<rparr>)"
  by (simp add: glyph_B_def source_B_def parse_defs)

lemma populate_source_N: "populate unloaded ''a.bdf'' (Some (unlines source_N)) = (None, font_N)"
  by (simp add: font_N_def meta_A_def glyph_N_def source_N_def parse_defs)

lemma populate_source_T: "populate unloaded ''a.bdf'' (Some (unlines source_T)) = (None, font_T)"
  by (simp add: font_T_def meta_A_def glyph_T_def source_T_def parse_defs)

lemma populate_source_R: "populate unloaded ''a.bdf'' (Some (unlines source_R)) = (None, font_R)"
  by (simp add: font_R_def meta_A_def glyph_R_def source_R_def parse_defs)

lemma populate_source_P: "populate unloaded ''a.bdf'' (Some (unlines source_P)) = (None, font_P)"
  by (simp add: font_P_def meta_P_def meta_A_def glyph_A_def source_P_def parse_defs)

section \<open>Loops and arrays\<close>

text \<open>
  A loop over \<open>[0..<n]\<close> is cut at its last run. The first rule is for a body that
  cannot throw where the invariant holds; the second is for a loop known to have
  ended without an error.
\<close>

lemma for_each_append:
  "for_each (xs @ ys) f s = (case for_each xs f s of Inl e \<Rightarrow> Inl e | Inr s' \<Rightarrow> for_each ys f s')"
  by (induction xs arbitrary: s) (auto split: sum.splits)

lemma for_each_upt_rule:
  assumes "I 0 s"
    and "\<And>k t. k < n \<Longrightarrow> I k t \<Longrightarrow> \<exists>t'. f k t = Inr t' \<and> I (Suc k) t'"
  shows "\<exists>t. for_each [0..<n] f s = Inr t \<and> I n t"
  using assms(2)
proof (induction n)
  case 0
  with assms(1) show ?case by simp
next
  case (Suc n)
  have "\<exists>t. for_each [0..<n] f s = Inr t \<and> I n t"
    by (rule Suc.IH) (simp add: Suc.prems)
  then obtain t where t: "for_each [0..<n] f s = Inr t" "I n t" by blast
  from Suc.prems [of n t] t(2) obtain t' where "f n t = Inr t'" "I (Suc n) t'" by auto
  with t(1) show ?case by (simp add: for_each_append)
qed

lemma for_each_upt_result:
  assumes "for_each [0..<n] f s = Inr t" and "I 0 s"
    and "\<And>k u u'. k < n \<Longrightarrow> I k u \<Longrightarrow> f k u = Inr u' \<Longrightarrow> I (Suc k) u'"
  shows "I n t"
  using assms(1,3)
proof (induction n arbitrary: t)
  case 0
  with assms(2) show ?case by simp
next
  case (Suc n)
  from Suc.prems(1) obtain u where u: "for_each [0..<n] f s = Inr u" "f n u = Inr t"
    by (auto simp: for_each_append split: sum.splits)
  have "I n u"
    by (rule Suc.IH [OF u(1)]) (simp add: Suc.prems(2))
  with u(2) show ?case
    by (intro Suc.prems(2) [of n u t]) simp_all
qed

lemma for_each_TypeError:
  "(\<And>v t e. f v t = Inl e \<Longrightarrow> e = TypeError) \<Longrightarrow> for_each xs f s = Inl e \<Longrightarrow> e = TypeError"
  by (induction xs arbitrary: s) (auto split: sum.splits)

lemma for_each_preserves:
  "for_each xs f s = Inr s' \<Longrightarrow> P s \<Longrightarrow> (\<And>v t t'. f v t = Inr t' \<Longrightarrow> P t \<Longrightarrow> P t') \<Longrightarrow> P s'"
  by (induction xs arbitrary: s) (auto split: sum.splits)

text \<open>Reading an array after a write, whatever the two keys are.\<close>

lemma arr_get_set: "arr_get (arr_set a k v) k' = (if k' = k then Some v else arr_get a k')"
proof (cases k)
  case NaN
  then show ?thesis by (cases k') (auto simp: update_conv')
next
  case (Num i)
  show ?thesis
  proof (cases k')
    case NaN
    with Num show ?thesis by (auto simp: update_conv')
  next
    case (Num j)
    with \<open>k = Num i\<close> show ?thesis
      by (auto simp: update_conv' nth_list_update nth_append nth_Cons' less_Suc_eq)
  qed
qed

lemma get_row_Some:
  "get_row bm row = Some a \<longleftrightarrow>
     (\<exists>r. row = Num r \<and> 0 \<le> r \<and> nat r < length (bitmap_rows bm) \<and> a = bitmap_rows bm ! nat r)"
  by (cases row) (auto simp: get_row_def)

lemma get_row_None:
  "get_row bm row = None \<longleftrightarrow>
     (case row of NaN \<Rightarrow> True | Num r \<Rightarrow> r < 0 \<or> int (length (bitmap_rows bm)) \<le> r)"
  by (cases row) (auto simp: get_row_def)

lemma update_cell_ok:
  assumes "get_row bm row \<noteq> None"
  shows "\<exists>bm'. update_cell row col f bm = Inr bm' \<and>
      length (bitmap_rows bm') = length (bitmap_rows bm) \<and>
      bitmap_width bm' = bitmap_width bm \<and> bitmap_height bm' = bitmap_height bm \<and>
      (\<forall>r c. cell bm' r c = (if r = row \<and> c = col then Some (f (cell bm row col)) else cell bm r c))"
proof -
  from assms obtain a where a: "get_row bm row = Some a" by auto
  then obtain i where i: "row = Num i" "0 \<le> i" "nat i < length (bitmap_rows bm)"
      "a = bitmap_rows bm ! nat i"
    by (auto simp: get_row_Some)
  let ?bm' = "bm\<lparr>bitmap_rows := (bitmap_rows bm)[nat i := arr_set a col (f (arr_get a col))]\<rparr>"
  have "update_cell row col f bm = Inr ?bm'"
    using a i by (simp add: update_cell_def)
  moreover have "cell ?bm' r c = (if r = row \<and> c = col then Some (f (cell bm row col)) else cell bm r c)" for r c
  proof (cases r)
    case NaN
    with i show ?thesis by (simp add: cell_def get_row_def)
  next
    case (Num j)
    with i show ?thesis
      by (auto simp: cell_def get_row_def nth_list_update arr_get_set)
  qed
  ultimately show ?thesis by simp
qed

lemma update_cell_Inl: "update_cell row col f bm = Inl e \<Longrightarrow> e = TypeError"
  by (auto simp: update_cell_def split: option.splits)

section \<open>The parser\<close>

subsection \<open>What a call that throws leaves behind\<close>

text \<open>
  Claim C6. \<^verbatim>\<open>_populate\<close> throws its string (the spec's \<^verbatim>\<open>MalformedFont\<close>) when the data
  is absent or empty, and it throws its second string when the loop over the lines
  has ended without an error and \<open>declarationStack\<close> is not empty.
\<close>

theorem populate_throws:
  "(data = None \<or> data = Some [] \<longrightarrow>
      fst (populate this path data) = Some (Thrown (''Couldn't understand this font: '' @ path))) \<and>
   (\<forall>d s. data = Some d \<and> d \<noteq> [] \<and> populate_loop (split_lines d) 0 initial_state = (None, s) \<and>
      declarationStack s \<noteq> [] \<longrightarrow>
      fst (populate this path data) = Some (Thrown (''Couldn't correctly parse font at: '' @ path)))"
  by (auto simp: populate_def)

theorem populate_throws_witness:
  "fst (populate unloaded ''a.bdf'' None) = Some (Thrown ''Couldn't understand this font: a.bdf'') \<and>
   fst (populate unloaded ''a.bdf'' (Some [])) = Some (Thrown ''Couldn't understand this font: a.bdf'') \<and>
   fst (populate unloaded ''a.bdf'' (Some ''STARTFONT 2.1'')) =
     Some (Thrown ''Couldn't correctly parse font at: a.bdf'')"
proof -
  have loop: "populate_loop (split_lines ''STARTFONT 2.1'') 0 initial_state =
      (None, initial_state\<lparr>declarationStack := [''STARTFONT''],
         the_meta := empty_meta\<lparr>meta_version := Some ''2.1''\<rparr>\<rparr>)"
    by (simp add: parse_defs)
  from populate_throws [of None unloaded "''a.bdf''"]
  have a: "fst (populate unloaded ''a.bdf'' None) = Some (Thrown ''Couldn't understand this font: a.bdf'')"
    by simp
  from populate_throws [of "Some []" unloaded "''a.bdf''"]
  have b: "fst (populate unloaded ''a.bdf'' (Some [])) = Some (Thrown ''Couldn't understand this font: a.bdf'')"
    by simp
  from populate_throws [of "Some ''STARTFONT 2.1''" unloaded "''a.bdf''"] loop
  have c: "fst (populate unloaded ''a.bdf'' (Some ''STARTFONT 2.1'')) =
      Some (Thrown ''Couldn't correctly parse font at: a.bdf'')"
    by simp
  from a b c show ?thesis by simp
qed

text \<open>
  Claim C5, as stated: a call that throws leaves \<open>meta\<close> and \<open>glyphs\<close> as they were. It
  fails: the file \<^verbatim>\<open>STARTFONT 2.1\<close> never closes its section, the call throws, and the
  font object that was not loaded now holds a \<open>meta\<close> with the version and an empty
  \<open>glyphs\<close>.
\<close>

theorem populate_not_atomic:
  "fst (populate unloaded ''a.bdf'' (Some ''STARTFONT 2.1'')) =
     Some (Thrown ''Couldn't correctly parse font at: a.bdf'') \<and>
   snd (populate unloaded ''a.bdf'' (Some ''STARTFONT 2.1'')) =
     \<lparr>bdf_meta = Some \<lparr>meta_version = Some ''2.1'', meta_name = None, meta_size = None,
        meta_boundingBox = None, meta_properties = None, totalChars = None\<rparr>, bdf_glyphs = Some []\<rparr> \<and>
   snd (populate unloaded ''a.bdf'' (Some ''STARTFONT 2.1'')) \<noteq> unloaded"
  by (simp add: parse_defs)

text \<open>
  Claim C5, amended. On absent or empty data the call throws before it assigns
  anything: the font object is unchanged. On any other data \<open>meta\<close> and \<open>glyphs\<close> are
  replaced by the objects the loop has filled, whether the call then throws or not.
\<close>

theorem populate_leaves:
  "(data = None \<or> data = Some [] \<longrightarrow> snd (populate this path data) = this) \<and>
   (\<forall>d. data = Some d \<and> d \<noteq> [] \<longrightarrow>
      snd (populate this path data) =
        this\<lparr>bdf_meta := Some (the_meta (snd (populate_loop (split_lines d) 0 initial_state))),
             bdf_glyphs := Some (the_glyphs (snd (populate_loop (split_lines d) 0 initial_state)))\<rparr>)"
  by (auto simp: populate_def Let_def split: prod.splits option.splits)

theorem populate_leaves_witness:
  "snd (populate font_A ''a.bdf'' (Some [])) = font_A \<and>
   snd (populate font_A ''a.bdf'' (Some ''STARTFONT 2.1'')) =
     \<lparr>bdf_meta = Some (empty_meta\<lparr>meta_version := Some ''2.1''\<rparr>), bdf_glyphs = Some []\<rparr>"
proof -
  have loop: "populate_loop (split_lines ''STARTFONT 2.1'') 0 initial_state =
      (None, initial_state\<lparr>declarationStack := [''STARTFONT''],
         the_meta := empty_meta\<lparr>meta_version := Some ''2.1''\<rparr>\<rparr>)"
    by (simp add: parse_defs)
  from populate_leaves [of "Some []" font_A "''a.bdf''"]
  have a: "snd (populate font_A ''a.bdf'' (Some [])) = font_A"
    by simp
  from populate_leaves [of "Some ''STARTFONT 2.1''" font_A "''a.bdf''"] loop
  have b: "snd (populate font_A ''a.bdf'' (Some ''STARTFONT 2.1'')) =
      \<lparr>bdf_meta = Some (empty_meta\<lparr>meta_version := Some ''2.1''\<rparr>), bdf_glyphs = Some []\<rparr>"
    by (simp add: initial_state_def font_A_def)
  from a b show ?thesis by simp
qed

subsection \<open>The key of a glyph\<close>
lemma update_keys_are_codes:
  "keys_are_codes gs \<Longrightarrow> keys_are_codes (AList.update (glyph_code g) g gs)"
  unfolding keys_are_codes_def
  by (induction gs) (auto split: if_splits)

lemma step_glyphs:
  "step fontLines i s = Inr (s', i') \<Longrightarrow>
     the_glyphs s' = the_glyphs s \<or>
     (\<exists>g. the_glyphs s' = AList.update (glyph_code g) g (the_glyphs s))"
  by (auto simp: step_def Let_def map_sum_def set_property_def set_char_def
           split: if_splits sum.splits option.splits prod.splits)

lemma step_keys_are_codes:
  "step fontLines i s = Inr (s', i') \<Longrightarrow> keys_are_codes (the_glyphs s) \<Longrightarrow>
     keys_are_codes (the_glyphs s')"
  by (auto dest!: step_glyphs simp: update_keys_are_codes)

lemma populate_loop_keys_are_codes:
  "populate_loop fontLines i s = (err, s') \<Longrightarrow> keys_are_codes (the_glyphs s) \<Longrightarrow>
     keys_are_codes (the_glyphs s')"
proof (induction fontLines i s rule: populate_loop.induct)
  case (1 fontLines i s)
  show ?case
  proof (cases "i < length fontLines")
    case False
    with "1.prems" show ?thesis by (simp add: populate_loop.simps)
  next
    case True
    show ?thesis
    proof (cases "step fontLines i s")
      case (Inl e)
      with True "1.prems" show ?thesis by (simp add: populate_loop.simps)
    next
      case (Inr r)
      obtain s1 i1 where r: "r = (s1, i1)" by (cases r)
      from Inr r True "1.prems"(1) have "populate_loop fontLines (Suc i1) s1 = (err, s')"
        by (simp add: populate_loop.simps)
      moreover from Inr r "1.prems"(2) have "keys_are_codes (the_glyphs s1)"
        by (auto dest: step_keys_are_codes)
      moreover from Inr r have "step fontLines i s = Inr (s1, i1)" by simp
      ultimately show ?thesis
        using "1.IH" [OF True _ refl] by simp
    qed
  qed
qed

text \<open>
  Claim C9. After a call of \<^verbatim>\<open>_populate\<close> that does not throw, the glyph stored under a
  key of \<open>glyphs\<close> has that key as its \<open>code\<close> (the key is the string of the code; the
  model keeps the value the string stands for).
\<close>

theorem populate_key_is_code:
  assumes "populate this path data = (None, this')"
    and "bdf_glyphs this' = Some gs"
    and "glyph_at gs k = Some g"
  shows "glyph_code g = k"
proof -
  from assms(1) obtain d where d: "data = Some d" "d \<noteq> []"
    by (auto simp: populate_def split: option.splits if_splits)
  obtain err s where loop: "populate_loop (split_lines d) 0 initial_state = (err, s)"
    by (cases "populate_loop (split_lines d) 0 initial_state")
  then have "keys_are_codes (the_glyphs s)"
    by (rule populate_loop_keys_are_codes) (simp add: keys_are_codes_def initial_state_def)
  moreover from assms(1,2) d loop have "gs = the_glyphs s"
    by (auto simp: populate_def Let_def split: option.splits if_splits)
  moreover from assms(3) have "(k, g) \<in> set gs"
    by (auto simp: glyph_at_def dest: map_of_SomeD)
  ultimately show ?thesis
    by (auto simp: keys_are_codes_def)
qed

theorem populate_key_is_code_witness:
  "populate unloaded ''a.bdf'' (Some (unlines source_A)) = (None, font_A) \<and>
   bdf_glyphs font_A = Some [(Some (Num 65), glyph_A)] \<and>
   glyph_at [(Some (Num 65), glyph_A)] (Some (Num 65)) = Some glyph_A \<and>
   glyph_code glyph_A = Some (Num 65)"
proof -
  have g: "bdf_glyphs font_A = Some [(Some (Num 65), glyph_A)]"
    by (simp add: font_A_def)
  have l: "glyph_at [(Some (Num 65), glyph_A)] (Some (Num 65)) = Some glyph_A"
    by (simp add: glyph_at_def)
  from populate_key_is_code [OF populate_source_A g l] populate_source_A g l
  show ?thesis by simp
qed

subsection \<open>The bytes and the bits of a glyph\<close>

lemma length_byte_bits: "length (byte_bits byte) = 8"
  by (simp add: byte_bits_def)

lemma decode_bytes_line:
  assumes "row < length (glyph_bitmap g)"
  shows "for_each [0..<n] (decode_byte (Some l) row) g =
     Inr (g\<lparr>glyph_bytes := glyph_bytes g @ map (\<lambda>byteIndex. parseInt16 (substr2 l (byteIndex * 2))) [0..<n],
            glyph_bitmap := (glyph_bitmap g)[row := glyph_bitmap g ! row @
              concat (map byte_bits (map (\<lambda>byteIndex. parseInt16 (substr2 l (byteIndex * 2))) [0..<n]))]\<rparr>)"
proof (induction n)
  case 0
  show ?case by simp
next
  case (Suc n)
  with assms show ?case
    by (simp add: for_each_append decode_byte_def Let_def)
qed

lemma decode_bytes_no_line:
  "for_each [0..<n] (decode_byte None row) g = Inr g' \<Longrightarrow> n = 0 \<and> g' = g"
  by (cases n) (auto simp: upt_conv_Cons decode_byte_def simp del: upt_Suc)

lemma decode_row_result:
  assumes "decode_row fontLines i bytesPerLine row g = Inr g'"
    and "length (glyph_bitmap g) = row"
  shows "g' = g\<lparr>glyph_bytes := glyph_bytes g @ row_bytes fontLines i (count bytesPerLine) row,
              glyph_bitmap := glyph_bitmap g @ [row_bits fontLines i (count bytesPerLine) row]\<rparr> \<and>
         length (row_bytes fontLines i (count bytesPerLine) row) = count bytesPerLine"
proof (cases "item fontLines (i + row + 1)")
  case None
  with assms have "count bytesPerLine = 0 \<and> g' = g\<lparr>glyph_bitmap := glyph_bitmap g @ [[]]\<rparr>"
    by (auto simp: decode_row_def Let_def upto_def set_row_def dest!: decode_bytes_no_line)
  with None show ?thesis
    by (simp add: row_bytes_def row_bits_def)
next
  case (Some l)
  from assms(2) have "row < length (set_row (glyph_bitmap g) row [])"
    by (simp add: set_row_def)
  from decode_bytes_line [of row "g\<lparr>glyph_bitmap := set_row (glyph_bitmap g) row []\<rparr>", simplified, OF this]
    assms Some
  show ?thesis
    by (auto simp: decode_row_def Let_def upto_def set_row_def row_bytes_def row_bits_def)
qed

text \<open>
  Claim C2, as stated: the rows of a glyph's bitmap are truncated to the width of its
  bounding box, and the byte 40 at width 4 gives the row 0, 1, 0, 0; every glyph of a
  font that was parsed has the bytes and rows its bounding box asks for. It fails:
  the parser stores all eight bits of the byte, for a glyph whose box is four columns
  wide; and a glyph with a bounding box and no \<^verbatim>\<open>BITMAP\<close> is stored with no bytes and
  no rows.
\<close>

theorem bitmap_row_has_eight_bits:
  "populate unloaded ''a.bdf'' (Some (unlines source_4)) =
     (None, \<lparr>bdf_meta = Some empty_meta, bdf_glyphs = Some [(Some (Num 65), glyph_4)]\<rparr>) \<and>
   glyph_boundingBox glyph_4 = Some \<lparr>box_width = Num 4, box_height = Num 1, box_x = Num 0, box_y = Num 0\<rparr> \<and>
   glyph_bytes glyph_4 = [Num 64] \<and>
   glyph_bitmap glyph_4 = [[0, 1, 0, 0, 0, 0, 0, 0]] \<and>
   glyph_bitmap glyph_4 \<noteq> [[0, 1, 0, 0]] \<and>
   populate unloaded ''a.bdf'' (Some (unlines source_B)) =
     (None, \<lparr>bdf_meta = Some empty_meta, bdf_glyphs = Some [(Some (Num 66), glyph_B)]\<rparr>) \<and>
   glyph_boundingBox glyph_B = Some \<lparr>box_width = Num 8, box_height = Num 1, box_x = Num 0, box_y = Num 0\<rparr> \<and>
   glyph_bytes glyph_B = [] \<and> glyph_bitmap glyph_B = []"
  using populate_source_4 populate_source_B by (simp add: glyph_4_def fresh_4_def glyph_B_def)

text \<open>
  Claim C2, amended. When the case \<^verbatim>\<open>BITMAP\<close> runs without an error on a glyph that has
  its bounding box and no bytes or rows yet, the glyph gets \<open>ceil (width / 8)\<close> bytes
  for each of \<open>height\<close> rows, read from the lines that follow, and \<open>height\<close> rows of bits,
  each of \<open>8 * ceil (width / 8)\<close> entries: the bits of its bytes, the most significant
  first, none dropped. The loop leaves \<open>i\<close> on the last line it has read.
\<close>

theorem decode_bitmap_shape:
  assumes "glyph_boundingBox g = Some b"
    and "glyph_bytes g = []" and "glyph_bitmap g = []"
    and "decode_bitmap fontLines i (Some g) = Inr (g', i')"
  shows "g' = g\<lparr>glyph_bytes := concat (map (row_bytes fontLines i (count (ceil_div8 (box_width b))))
                    [0..<count (box_height b)]),
              glyph_bitmap := map (row_bits fontLines i (count (ceil_div8 (box_width b))))
                    [0..<count (box_height b)]\<rparr> \<and>
         i' = i + count (box_height b) \<and>
         length (glyph_bytes g') = count (ceil_div8 (box_width b)) * count (box_height b) \<and>
         length (glyph_bitmap g') = count (box_height b) \<and>
         (\<forall>bits \<in> set (glyph_bitmap g'). length bits = 8 * count (ceil_div8 (box_width b)))"
proof -
  let ?n = "count (ceil_div8 (box_width b))"
  let ?h = "count (box_height b)"
  let ?I = "\<lambda>k t. t = g\<lparr>glyph_bytes := concat (map (row_bytes fontLines i ?n) [0..<k]),
                           glyph_bitmap := map (row_bits fontLines i ?n) [0..<k]\<rparr> \<and>
                    (\<forall>row < k. length (row_bytes fontLines i ?n row) = ?n)"
  from assms(1,4) have loop: "for_each [0..<?h] (decode_row fontLines i (ceil_div8 (box_width b))) g = Inr g'"
    and i': "i' = i + ?h"
    by (auto simp: decode_bitmap_def Let_def upto_def split: sum.splits)
  from loop have inv: "?I ?h g'"
  proof (rule for_each_upt_result [where I = ?I])
    from assms(2,3) show "?I 0 g" by simp
  next
    fix k u u'
    assume k: "k < ?h" and u: "?I k u"
      and step: "decode_row fontLines i (ceil_div8 (box_width b)) k u = Inr u'"
    from u have "length (glyph_bitmap u) = k" by simp
    from decode_row_result [OF step this] u show "?I (Suc k) u'"
      by (auto simp: less_Suc_eq)
  qed
  have same: "map (\<lambda>row. length (row_bytes fontLines i ?n row)) [0..<?h] = map (\<lambda>row. ?n) [0..<?h]"
    using inv by (intro map_cong) auto
  from inv have "length (glyph_bytes g') =
      sum_list (map (\<lambda>row. length (row_bytes fontLines i ?n row)) [0..<?h])"
    by (simp add: length_concat comp_def)
  also have "\<dots> = sum_list (map (\<lambda>row. ?n) [0..<?h])"
    by (simp only: same)
  also have "\<dots> = ?n * ?h"
    by (simp add: sum_list_triv)
  finally have bytes: "length (glyph_bytes g') = ?n * ?h" .
  have "length (row_bits fontLines i ?n row) = 8 * ?n" if "row < ?h" for row
    using inv that
    by (simp add: row_bits_def length_concat comp_def length_byte_bits sum_list_triv)
  with inv have rows: "\<forall>bits \<in> set (glyph_bitmap g'). length bits = 8 * ?n"
    by auto
  from inv i' bytes rows show ?thesis by simp
qed

theorem decode_bitmap_shape_witness:
  "decode_bitmap source_4 3 (Some fresh_4) = Inr (glyph_4, 4) \<and>
   length (glyph_bytes glyph_4) = 1 \<and> length (glyph_bitmap glyph_4) = 1 \<and>
   map length (glyph_bitmap glyph_4) = [8] \<and>
   map (take 4) (glyph_bitmap glyph_4) = [[0, 1, 0, 0]]"
proof -
  have box: "glyph_boundingBox fresh_4 =
      Some \<lparr>box_width = Num 4, box_height = Num 1, box_x = Num 0, box_y = Num 0\<rparr>"
    and bytes: "glyph_bytes fresh_4 = []" and bitmap: "glyph_bitmap fresh_4 = []"
    by (simp_all add: fresh_4_def)
  have run: "decode_bitmap source_4 3 (Some fresh_4) = Inr (glyph_4, 4)"
    by (simp add: glyph_4_def fresh_4_def source_4_def parse_defs)
  note shape = decode_bitmap_shape [OF box bytes bitmap run]
  from shape have "length (glyph_bytes glyph_4) = 1" and "length (glyph_bitmap glyph_4) = 1"
    and rows: "\<forall>bits \<in> set (glyph_bitmap glyph_4). length bits = 8"
    by simp_all
  moreover from rows \<open>length (glyph_bitmap glyph_4) = 1\<close> have "map length (glyph_bitmap glyph_4) = [8]"
    by (cases "glyph_bitmap glyph_4") auto
  moreover have "map (take 4) (glyph_bitmap glyph_4) = [[0, 1, 0, 0]]"
    by (simp add: glyph_4_def)
  ultimately show ?thesis using run by simp
qed

section \<open>The compositor\<close>

subsection \<open>Empty text\<close>

text \<open>
  Claim C8. For a font with a bounding box, \<^verbatim>\<open>writeText\<close> of the empty text with no
  options returns a bitmap of width 0 and of the height of the font's bounding box;
  its rows, one for each index below that height, are empty arrays.
\<close>

theorem writeText_empty_text:
  assumes "bdf_meta this = Some m" and "meta_boundingBox m = Some fb"
  shows "writeText this [] None None =
    (Inr \<lparr>bitmap_width = Num 0, bitmap_height = box_height fb,
          bitmap_rows = replicate (count (box_height fb)) \<lparr>elems = [], props = []\<rparr>\<rparr>, None)"
  using assms
  by (simp add: writeText.simps write_pass_def new_bitmap_def upto_def empty_array_def
        map_replicate_const Let_def)

theorem writeText_empty_text_witness:
  "bdf_meta font_A = Some meta_A \<and>
   meta_boundingBox meta_A = Some \<lparr>box_width = Num 2, box_height = Num 1, box_x = Num 0, box_y = Num 0\<rparr> \<and>
   writeText font_A [] None None =
     (Inr \<lparr>bitmap_width = Num 0, bitmap_height = Num 1,
           bitmap_rows = [\<lparr>elems = [], props = []\<rparr>]\<rparr>, None)"
proof -
  have m: "bdf_meta font_A = Some meta_A"
    by (simp add: font_A_def)
  have b: "meta_boundingBox meta_A =
      Some \<lparr>box_width = Num 2, box_height = Num 1, box_x = Num 0, box_y = Num 0\<rparr>"
    by (simp add: meta_A_def)
  from writeText_empty_text [OF m b] m b show ?thesis
    by simp
qed

subsection \<open>The option \<open>textRepeat\<close>\<close>

lemma writeText_textRepeat_nat:
  "textRepeat given = Some (Num (int n)) \<Longrightarrow>
   writeText this text (Some given) bitmap0 = (Inr bm, opts') \<Longrightarrow>
   opts' = Some (given\<lparr>textRepeat := Some (Num 0)\<rparr>)"
proof (induction n arbitrary: given bitmap0)
  case 0
  then show ?case
    by (subst (asm) writeText.simps) (auto simp: Let_def split: sum.splits)
next
  case (Suc n)
  from Suc.prems(2) obtain bm1 where
    rec: "writeText this text (Some (given\<lparr>textRepeat := Some (Num (int n))\<rparr>)) (Some bm1) = (Inr bm, opts')"
    using Suc.prems(1)
    by (subst (asm) writeText.simps) (auto simp: Let_def split: sum.splits)
  from Suc.IH [OF _ rec] show ?case by simp
qed

text \<open>
  Claim C10. \<^verbatim>\<open>writeText\<close> changes the \<open>options\<close> object of its caller: called with a
  \<open>textRepeat\<close> above 0, it decrements the property before each further run, and when
  it returns the property is 0.
\<close>

theorem writeText_resets_textRepeat:
  assumes "textRepeat given = Some (Num n)" and "0 < n"
    and "writeText this text (Some given) bitmap0 = (Inr bm, opts')"
  shows "opts' = Some (given\<lparr>textRepeat := Some (Num 0)\<rparr>)"
  using writeText_textRepeat_nat [of given "nat n" this "text" bitmap0 bm opts'] assms
  by simp

theorem writeText_resets_textRepeat_witness:
  "textRepeat \<lparr>textRepeat = Some (Num 2), kerningBias = None\<rparr> = Some (Num 2) \<and> (0 :: int) < 2 \<and>
   writeText font_A ''A'' (Some \<lparr>textRepeat = Some (Num 2), kerningBias = None\<rparr>) None =
     (Inr \<lparr>bitmap_width = Num 6, bitmap_height = Num 1,
           bitmap_rows = [\<lparr>elems = [Some 1, Some 0, Some 0, Some 0, Some 0, Some 0], props = []\<rparr>]\<rparr>,
      Some \<lparr>textRepeat = Some (Num 0), kerningBias = None\<rparr>) \<and>
   Some \<lparr>textRepeat = Some (Num 0), kerningBias = None\<rparr> =
     Some (\<lparr>textRepeat = Some (Num 2), kerningBias = None\<rparr>\<lparr>textRepeat := Some (Num 0)\<rparr>)"
proof -
  have given: "textRepeat \<lparr>textRepeat = Some (Num 2), kerningBias = None\<rparr> = Some (Num 2)"
    by simp
  have pos: "(0 :: int) < 2"
    by simp
  have run: "writeText font_A ''A'' (Some \<lparr>textRepeat = Some (Num 2), kerningBias = None\<rparr>) None =
     (Inr \<lparr>bitmap_width = Num 6, bitmap_height = Num 1,
           bitmap_rows = [\<lparr>elems = [Some 1, Some 0, Some 0, Some 0, Some 0, Some 0], props = []\<rparr>]\<rparr>,
      Some \<lparr>textRepeat = Some (Num 0), kerningBias = None\<rparr>)"
    by (simp add: font_A_def meta_A_def glyph_A_def write_defs)
  note after = writeText_resets_textRepeat [OF given pos run]
  show ?thesis
    by (intro conjI) (rule given pos run after)+
qed

text \<open>
  Claim C1 says that a call with \<open>textRepeat\<close> \<open>n\<close> returns the rendering of the text
  \<open>1 + n\<close> times side by side. The code draws every run from \<open>xpos = 0\<close>: a further
  run widens the bitmap with blank columns and stamps the text again over the first
  rendering. On the font of the glyph \<open>A\<close> the text \<^verbatim>\<open>A\<close> renders as the columns 1, 0;
  with \<open>textRepeat\<close> 1 the result is 1, 0, 0, 0 and not 1, 0, 1, 0.
\<close>

theorem writeText_repeat_draws_at_origin:
  "writeText font_A ''A'' None None =
     (Inr \<lparr>bitmap_width = Num 2, bitmap_height = Num 1,
           bitmap_rows = [\<lparr>elems = [Some 1, Some 0], props = []\<rparr>]\<rparr>, None) \<and>
   writeText font_A ''A'' (Some \<lparr>textRepeat = Some (Num 1), kerningBias = None\<rparr>) None =
     (Inr \<lparr>bitmap_width = Num 4, bitmap_height = Num 1,
           bitmap_rows = [\<lparr>elems = [Some 1, Some 0, Some 0, Some 0], props = []\<rparr>]\<rparr>,
      Some \<lparr>textRepeat = Some (Num 0), kerningBias = None\<rparr>)"
  by (simp add: font_A_def meta_A_def glyph_A_def write_defs)

subsection \<open>The rows and the frame of the bitmap\<close>

text \<open>
  A write to a cell changes that cell and nothing else; it throws exactly when the
  bitmap has no row for it.
\<close>

lemma same_frame_refl: "same_frame bm bm"
  by (simp add: same_frame_def)

lemma get_row_same_frame:
  "same_frame bm bm' \<Longrightarrow> (get_row bm' row = None) = (get_row bm row = None)"
  by (cases row) (simp_all add: get_row_None same_frame_def)

lemma update_cell_frame:
  "get_row bm row \<noteq> None \<Longrightarrow> \<exists>bm'. update_cell row col f bm = Inr bm' \<and> same_frame bm bm'"
  using update_cell_ok [of bm row col f] by (auto simp: same_frame_def)

lemma update_cell_same_frame:
  "update_cell row col f bm = Inr bm' \<Longrightarrow> same_frame bm bm'"
  by (auto simp: update_cell_def same_frame_def split: option.splits)

text \<open>
  Both loops succeed on a bitmap with enough rows, and leave its frame as it was.
\<close>

lemma extend_bitmap_ok:
  assumes "count height \<le> length (bitmap_rows bm)"
  shows "\<exists>bm'. extend_bitmap height cta bm = Inr bm' \<and> same_frame bm bm'"
  unfolding extend_bitmap_def upto_def
proof (rule for_each_upt_rule [where I = "\<lambda>k. same_frame bm"])
  show "same_frame bm bm" by (rule same_frame_refl)
next
  fix row t
  assume row: "row < count height" and t: "same_frame bm t"
  show "\<exists>t'. for_each [0..<count cta]
          (\<lambda>glyphColumn bm'. update_cell (Num (int row))
             (js_add (Num (int glyphColumn)) (bitmap_width bm')) (\<lambda>_. 0) bm') t = Inr t' \<and>
        same_frame bm t'"
  proof (rule for_each_upt_rule [where I = "\<lambda>k. same_frame bm"])
    show "same_frame bm t" by (rule t)
  next
    fix k u
    assume u: "same_frame bm u"
    with row assms have "get_row u (Num (int row)) \<noteq> None"
      by (simp add: get_row_None same_frame_def)
    from update_cell_frame [OF this] u
    show "\<exists>t'. update_cell (Num (int row)) (js_add (Num (int k)) (bitmap_width u)) (\<lambda>_. 0) u = Inr t' \<and>
        same_frame bm t'"
      by (auto simp: same_frame_def)
  qed
qed



lemma stampable_rows:
  assumes "stampable fb g" and "glyph_boundingBox g = Some b"
    and "length (bitmap_rows bm) = count (box_height fb)"
  shows "count (box_width b) = 0 \<or> count (box_height b) = 0 \<or>
      (count (box_height b) \<le> length (glyph_bitmap g) \<and>
       (\<forall>y < count (box_height b). get_row bm (js_add (row_start fb b) (Num (int y))) \<noteq> None))"
  using assms
  by (auto simp: stampable_def get_row_None row_outside_def list_all_iff upto_def split: jsnum.splits)


lemma same_frame_trans: "same_frame a b \<Longrightarrow> same_frame b c \<Longrightarrow> same_frame a c"
  by (simp add: same_frame_def)

lemma extend_bitmap_same_frame:
  assumes "extend_bitmap height cta bm = Inr bm'"
  shows "same_frame bm bm'"
proof -
  have inner: "same_frame bm t'"
    if "for_each (upto cta) (\<lambda>glyphColumn bm'. update_cell (Num (int row))
          (js_add (Num (int glyphColumn)) (bitmap_width bm')) (\<lambda>_. 0) bm') t = Inr t'"
      and "same_frame bm t" for row t t'
    using that(1)
  proof (rule for_each_preserves [where P = "same_frame bm"])
    show "same_frame bm t" by (rule that(2))
  next
    fix v u u'
    assume "update_cell (Num (int row)) (js_add (Num (int v)) (bitmap_width u)) (\<lambda>_. 0) u = Inr u'"
      and "same_frame bm u"
    then show "same_frame bm u'"
      by (blast intro: same_frame_trans update_cell_same_frame)
  qed
  from assms [unfolded extend_bitmap_def] show ?thesis
    by (rule for_each_preserves [where P = "same_frame bm"]) (auto intro: inner same_frame_refl)
qed

lemma draw_bit_same_frame: "draw_bit g b rowStart xpos y x' bm = Inr bm' \<Longrightarrow> same_frame bm bm'"
  by (auto simp: draw_bit_def Let_def split: option.splits dest: update_cell_same_frame)

lemma draw_row_same_frame:
  assumes "for_each xs (draw_bit g b rowStart xpos y) t = Inr t'" and "same_frame bm t"
  shows "same_frame bm t'"
  using assms(1)
  by (rule for_each_preserves [where P = "same_frame bm"])
     (auto intro: assms(2) same_frame_trans draw_bit_same_frame)

lemma draw_rows_same_frame:
  assumes "for_each ys (\<lambda>y. for_each xs (draw_bit g b rowStart xpos y)) bm = Inr bm'"
  shows "same_frame bm bm'"
  using assms
  by (rule for_each_preserves [where P = "same_frame bm"])
     (auto intro: draw_row_same_frame same_frame_refl)

lemma draw_glyph_same_frame: "draw_glyph g b rowStart xpos bm = Inr bm' \<Longrightarrow> same_frame bm bm'"
  unfolding draw_glyph_def by (rule draw_rows_same_frame)

lemma write_char_rows:
  "write_char m glyphs height baseline kerning c st = Inr st' \<Longrightarrow>
     length (bitmap_rows (fst st')) = length (bitmap_rows (fst st))"
  by (auto simp: write_char_def Let_def same_frame_def
           split: option.splits sum.splits if_splits
           dest!: extend_bitmap_same_frame draw_glyph_same_frame)
text \<open>Every error of the compositor is a \<open>TypeError\<close>.\<close>

lemma draw_bit_Inl: "draw_bit g b rowStart xpos y x' bm = Inl e \<Longrightarrow> e = TypeError"
  by (auto simp: draw_bit_def Let_def split: option.splits dest: update_cell_Inl)

lemma draw_glyph_Inl: "draw_glyph g b rowStart xpos bm = Inl e \<Longrightarrow> e = TypeError"
  unfolding draw_glyph_def
  by (erule for_each_TypeError [rotated]) (erule for_each_TypeError [rotated], erule draw_bit_Inl)

lemma extend_bitmap_Inl: "extend_bitmap height cta bm = Inl e \<Longrightarrow> e = TypeError"
  unfolding extend_bitmap_def
  by (erule for_each_TypeError [rotated]) (erule for_each_TypeError [rotated], erule update_cell_Inl)

lemma resolve_glyph_Inl: "resolve_glyph m gs c = Inl e \<Longrightarrow> e = TypeError"
  by (auto simp: resolve_glyph_def split: option.splits)

lemma write_char_Inl: "write_char m glyphs height baseline kerning c st = Inl e \<Longrightarrow> e = TypeError"
  by (auto simp: write_char_def Let_def split: option.splits sum.splits if_splits
           dest: resolve_glyph_Inl extend_bitmap_Inl draw_glyph_Inl)

lemma write_chars_Inl: "write_chars m glyphs height baseline kerning cs st = Inl e \<Longrightarrow> e = TypeError"
  by (induction cs arbitrary: st) (auto split: sum.splits dest: write_char_Inl)

subsection \<open>Characters the font lacks\<close>











subsection \<open>A glyph outside the rows of the bitmap\<close>

lemma draw_glyph_fails:
  assumes "y < count (box_height b)" and "0 < count (box_width b)"
    and "get_row bm (js_add rowStart (Num (int y))) = None"
  shows "draw_glyph g b rowStart xpos bm = Inl TypeError"
proof -
  let ?row = "\<lambda>y. for_each [0..<count (box_width b)] (draw_bit g b rowStart xpos y)"
  have split: "[0..<count (box_height b)] = [0..<y] @ y # [Suc y..<count (box_height b)]"
  proof -
    from assms(1) have "[0..<y + (count (box_height b) - y)] = [0..<y] @ [y..<y + (count (box_height b) - y)]"
      by (intro upt_add_eq_append) simp
    with assms(1) show ?thesis by (simp add: upt_conv_Cons)
  qed
  have cols: "[0..<count (box_width b)] = 0 # [Suc 0..<count (box_width b)]"
    using assms(2) by (simp add: upt_conv_Cons)
  show ?thesis
  proof (cases "for_each [0..<y] ?row bm")
    case (Inl e)
    then have "e = TypeError"
      by (rule for_each_TypeError [rotated]) (erule for_each_TypeError [rotated], erule draw_bit_Inl)
    with Inl show ?thesis
      by (simp add: draw_glyph_def upto_def split for_each_append)
  next
    case (Inr t)
    then have "same_frame bm t" by (rule draw_rows_same_frame)
    with assms(3) have "get_row t (js_add rowStart (Num (int y))) = None"
      by (simp add: get_row_same_frame)
    then have "draw_bit g b rowStart xpos y 0 t = Inl TypeError"
      by (simp add: draw_bit_def Let_def)
    then have "?row y t = Inl TypeError"
      by (subst cols) simp
    with Inr show ?thesis
      by (simp add: draw_glyph_def upto_def split for_each_append)
  qed
qed

lemma write_char_fails:
  assumes "resolve_glyph m gs (of_char c) = Inr (Some g)"
    and "glyph_boundingBox g = Some b"
    and "0 < count (box_width b)" and "y < count (box_height b)"
    and "row_outside fb b y"
    and "length (bitmap_rows (fst st)) = count (box_height fb)"
  shows "write_char m (Some gs) (box_height fb) (js_add (box_height fb) (box_y fb)) kerning c st = Inl TypeError"
proof -
  let ?cta0 = "js_max (to_number (deviceWidthX g)) (box_width b)"
  let ?shift = "js_lt (bitmap_width (fst st)) (js_neg (box_x b))"
  let ?xpos = "if ?shift then js_neg (box_x b) else snd st"
  let ?cta = "if ?shift then js_add ?cta0 ?xpos else ?cta0"
  from assms(6) obtain bm1 where bm1: "extend_bitmap (box_height fb) ?cta (fst st) = Inr bm1"
      "same_frame (fst st) bm1"
    using extend_bitmap_ok [of "box_height fb" "fst st" ?cta] by auto
  let ?bm2 = "bm1\<lparr>bitmap_width := js_add (bitmap_width bm1) ?cta\<rparr>"
  from bm1(2) assms(6) have len2: "length (bitmap_rows ?bm2) = count (box_height fb)"
    by (simp add: same_frame_def)
  with assms(5) have "get_row ?bm2 (js_add (row_start fb b) (Num (int y))) = None"
    by (auto simp: get_row_None row_outside_def split: jsnum.splits)
  from draw_glyph_fails [OF assms(4) assms(3) this]
  have "draw_glyph g b (row_start fb b) ?xpos ?bm2 = Inl TypeError" .
  then show ?thesis
    unfolding write_char_def Let_def
    using assms(1,2) bm1(1) by (simp add: row_start_def)
qed

lemma write_chars_fails:
  assumes "resolve_glyph m gs (of_char c) = Inr (Some g)"
    and "glyph_boundingBox g = Some b"
    and "0 < count (box_width b)" and "y < count (box_height b)"
    and "row_outside fb b y"
  shows "c \<in> set cs \<Longrightarrow> length (bitmap_rows (fst st)) = count (box_height fb) \<Longrightarrow>
    write_chars m (Some gs) (box_height fb) (js_add (box_height fb) (box_y fb)) kerning cs st = Inl TypeError"
proof (induction cs arbitrary: st)
  case Nil
  then show ?case by simp
next
  case (Cons d cs)
  let ?step = "write_char m (Some gs) (box_height fb) (js_add (box_height fb) (box_y fb)) kerning d st"
  show ?case
  proof (cases ?step)
    case (Inl e)
    then have "e = TypeError" by (rule write_char_Inl)
    with Inl show ?thesis by simp
  next
    case (Inr st')
    have "d \<noteq> c"
    proof
      assume "d = c"
      with write_char_fails [OF assms Cons.prems(2), of kerning] Inr show False by simp
    qed
    with Cons.prems(1) have "c \<in> set cs" by simp
    moreover from write_char_rows [OF Inr] Cons.prems(2)
    have "length (bitmap_rows (fst st')) = count (box_height fb)" by simp
    ultimately have "write_chars m (Some gs) (box_height fb) (js_add (box_height fb) (box_y fb))
        kerning cs st' = Inl TypeError"
      by (rule Cons.IH)
    with Inr show ?thesis by simp
  qed
qed

text \<open>
  Claim C4, as stated: a write outside the bitmap makes \<^verbatim>\<open>writeText\<close> fail with an
  error of its own for the geometry. It fails both ways: a glyph two rows high in a
  font one row high throws the \<open>TypeError\<close> of reading a row that is not there, and a
  glyph drawn right of the last column makes its row longer than the bitmap is wide,
  with a hole, and \<^verbatim>\<open>writeText\<close> returns.
\<close>

theorem outside_TypeError_or_growth:
  "writeText font_T ''A'' None None = (Inl TypeError, None) \<and>
   writeText font_R ''A'' None None =
     (Inr \<lparr>bitmap_width = Num 2, bitmap_height = Num 1,
           bitmap_rows = [\<lparr>elems = [Some 0, Some 0, None, Some 1], props = []\<rparr>]\<rparr>, None)"
  by (simp add: font_T_def font_R_def meta_A_def glyph_T_def glyph_R_def write_defs)

text \<open>
  Claim C4, amended. When a character of the text has a glyph with a box at least
  one column wide, one of whose rows falls outside the rows of the bitmap,
  \<^verbatim>\<open>writeText\<close> throws a \<open>TypeError\<close> and returns no bitmap. (The code has no error for
  the geometry, and it never checks a column.)
\<close>

theorem writeText_row_outside:
  assumes "bdf_meta this = Some m" and "meta_boundingBox m = Some fb"
    and "bdf_glyphs this = Some gs"
    and "c \<in> set cs"
    and "resolve_glyph m gs (of_char c) = Inr (Some g)"
    and "glyph_boundingBox g = Some b"
    and "0 < count (box_width b)" and "y < count (box_height b)"
    and "row_outside fb b y"
  shows "fst (writeText this cs opts None) = Inl TypeError"
proof -
  have "length (bitmap_rows (fst (new_bitmap (box_height fb), Num 0))) = count (box_height fb)"
    by (simp add: new_bitmap_def upto_def)
  from write_chars_fails [OF assms(5-9) assms(4) this]
  have "write_pass this cs kerning None = Inl TypeError" for kerning
    using assms(1-3) by (simp add: write_pass_def Let_def)
  then show ?thesis
    by (subst writeText.simps) (simp add: Let_def)
qed

theorem writeText_row_outside_witness:
  "resolve_glyph meta_A [(Some (Num 65), glyph_T)] (of_char CHR ''A'') = Inr (Some glyph_T) \<and>
   row_outside \<lparr>box_width = Num 2, box_height = Num 1, box_x = Num 0, box_y = Num 0\<rparr>
     \<lparr>box_width = Num 1, box_height = Num 2, box_x = Num 0, box_y = Num 0\<rparr> 0 \<and>
   fst (writeText font_T ''A'' None None) = Inl TypeError"
proof -
  let ?fb = "\<lparr>box_width = Num 2, box_height = Num 1, box_x = Num 0, box_y = Num 0\<rparr>"
  let ?b = "\<lparr>box_width = Num 1, box_height = Num 2, box_x = Num 0, box_y = Num 0\<rparr>"
  have m: "bdf_meta font_T = Some meta_A" and gs: "bdf_glyphs font_T = Some [(Some (Num 65), glyph_T)]"
    by (simp_all add: font_T_def)
  have fb: "meta_boundingBox meta_A = Some ?fb"
    by (simp add: meta_A_def)
  have c: "CHR ''A'' \<in> set ''A''"
    by simp
  have res: "resolve_glyph meta_A [(Some (Num 65), glyph_T)] (of_char CHR ''A'') = Inr (Some glyph_T)"
    by (simp add: resolve_glyph_def glyph_at_def)
  have b: "glyph_boundingBox glyph_T = Some ?b"
    by (simp add: glyph_T_def)
  have w: "0 < count (box_width ?b)" and y: "0 < count (box_height ?b)"
    by simp_all
  have out: "row_outside ?fb ?b 0"
    by (simp add: row_outside_def row_start_def)
  note fails = writeText_row_outside [OF m fb gs c res b w y out, of None]
  show ?thesis
    by (intro conjI) (rule res out fails)+
qed

subsection \<open>A glyph left of the origin\<close>

lemma stamped_start: "stamped bm rs c0 w F 0 0 bm"
  by (auto simp: stamped_def same_frame_refl)

lemma region_next_row:
  "(rs \<le> r \<and> c0 \<le> c \<and> c < c0 + int w \<and> (r < rs + int (Suc y) \<or> r = rs + int (Suc y) \<and> c < c0 + int 0)) =
   (rs \<le> r \<and> c0 \<le> c \<and> c < c0 + int w \<and> (r < rs + int y \<or> r = rs + int y \<and> c < c0 + int w))"
  by auto

lemma stamped_next_row: "stamped bm rs c0 w F y w t \<Longrightarrow> stamped bm rs c0 w F (Suc y) 0 t"
  unfolding stamped_def region_next_row by assumption

lemma stamped_step:
  assumes "stamped bm rs c0 w F y k t" and "k < w"
    and "same_frame t t'"
    and "\<forall>r c. cell t' r c =
       (if r = Num (rs + int y) \<and> c = Num (c0 + int k) then Some (F y k (cell t r c)) else cell t r c)"
  shows "stamped bm rs c0 w F y (Suc k) t'"
  unfolding stamped_def
proof (intro conjI allI)
  from assms(1,3) show "same_frame bm t'"
    by (auto simp: stamped_def intro: same_frame_trans)
next
  fix r c
  from assms(1) have t: "cell t (Num r) (Num c) =
         (if rs \<le> r \<and> c0 \<le> c \<and> c < c0 + int w \<and> (r < rs + int y \<or> r = rs + int y \<and> c < c0 + int k)
          then Some (F (nat (r - rs)) (nat (c - c0)) (cell bm (Num r) (Num c)))
          else cell bm (Num r) (Num c))"
    by (simp add: stamped_def)
  show "cell t' (Num r) (Num c) =
         (if rs \<le> r \<and> c0 \<le> c \<and> c < c0 + int w \<and> (r < rs + int y \<or> r = rs + int y \<and> c < c0 + int (Suc k))
          then Some (F (nat (r - rs)) (nat (c - c0)) (cell bm (Num r) (Num c)))
          else cell bm (Num r) (Num c))"
  proof (cases "r = rs + int y \<and> c = c0 + int k")
    case True
    with assms(2,4) t show ?thesis by simp
  next
    case False
    then have "cell t' (Num r) (Num c) = cell t (Num r) (Num c)"
      using assms(4) by auto
    moreover from False have "(r < rs + int y \<or> r = rs + int y \<and> c < c0 + int (Suc k)) =
        (r < rs + int y \<or> r = rs + int y \<and> c < c0 + int k)"
      by auto
    ultimately show ?thesis using t by simp
  qed
qed

lemma nested_stamp:
  assumes body: "\<And>y k t. y < h \<Longrightarrow> k < w \<Longrightarrow> same_frame bm t \<Longrightarrow>
      \<exists>t'. body y k t = Inr t' \<and> same_frame t t' \<and>
        (\<forall>r c. cell t' r c =
           (if r = Num (rs + int y) \<and> c = Num (c0 + int k) then Some (F y k (cell t r c)) else cell t r c))"
  shows "\<exists>bm'. for_each [0..<h] (\<lambda>y. for_each [0..<w] (body y)) bm = Inr bm' \<and>
      stamped bm rs c0 w F h 0 bm'"
proof (rule for_each_upt_rule [where I = "\<lambda>y. stamped bm rs c0 w F y 0"])
  show "stamped bm rs c0 w F 0 0 bm" by (rule stamped_start)
next
  fix y t
  assume y: "y < h" and t: "stamped bm rs c0 w F y 0 t"
  have "\<exists>t'. for_each [0..<w] (body y) t = Inr t' \<and> stamped bm rs c0 w F y w t'"
  proof (rule for_each_upt_rule [where I = "\<lambda>k. stamped bm rs c0 w F y k"])
    show "stamped bm rs c0 w F y 0 t" by (rule t)
  next
    fix k u
    assume k: "k < w" and u: "stamped bm rs c0 w F y k u"
    then have "same_frame bm u" by (simp add: stamped_def)
    from body [OF y k this] obtain u' where u': "body y k u = Inr u'" "same_frame u u'"
      "\<forall>r c. cell u' r c =
           (if r = Num (rs + int y) \<and> c = Num (c0 + int k) then Some (F y k (cell u r c)) else cell u r c)"
      by blast
    from stamped_step [OF u k u'(2,3)] u'(1)
    show "\<exists>t'. body y k u = Inr t' \<and> stamped bm rs c0 w F y (Suc k) t'" by blast
  qed
  then show "\<exists>t'. for_each [0..<w] (body y) t = Inr t' \<and> stamped bm rs c0 w F (Suc y) 0 t'"
    by (blast intro: stamped_next_row)
qed

lemma extend_bitmap_stamped:
  assumes "count height \<le> length (bitmap_rows bm)" and "bitmap_width bm = Num wd"
  shows "\<exists>bm'. extend_bitmap height cta bm = Inr bm' \<and>
      stamped bm 0 wd (count cta) (\<lambda>_ _ _. 0) (count height) 0 bm'"
  unfolding extend_bitmap_def upto_def
proof (rule nested_stamp)
  fix y k t
  assume y: "y < count height" and t: "same_frame bm t"
  with assms(1) have "get_row t (Num (int y)) \<noteq> None"
    by (simp add: get_row_None same_frame_def)
  from update_cell_ok [OF this, of "Num (int k + wd)" "\<lambda>_. 0"] t assms(2)
  show "\<exists>t'. update_cell (Num (int y)) (js_add (Num (int k)) (bitmap_width t)) (\<lambda>_. 0) t = Inr t' \<and>
      same_frame t t' \<and>
      (\<forall>r c. cell t' r c =
         (if r = Num (0 + int y) \<and> c = Num (wd + int k) then Some 0 else cell t r c))"
    by (auto simp: same_frame_def add.commute)
qed

lemma draw_glyph_stamped:
  assumes "js_add xpos (box_x b) = Num c0"
    and "count (box_width b) = 0 \<or> count (box_height b) = 0 \<or>
      (count (box_height b) \<le> length (glyph_bitmap g) \<and>
       (\<forall>y < count (box_height b). get_row bm (js_add (Num rs) (Num (int y))) \<noteq> None))"
  shows "\<exists>bm'. draw_glyph g b (Num rs) xpos bm = Inr bm' \<and>
      stamped bm rs c0 (count (box_width b)) (\<lambda>y k old. js_bitor old (item (glyph_bitmap g ! y) k))
        (count (box_height b)) 0 bm'"
  unfolding draw_glyph_def upto_def
proof (rule nested_stamp)
  fix y k t
  assume y: "y < count (box_height b)" and k: "k < count (box_width b)" and t: "same_frame bm t"
  with assms(2) have len: "y < length (glyph_bitmap g)"
    and "get_row bm (Num (rs + int y)) \<noteq> None"
    by auto
  with t have row: "get_row t (Num (rs + int y)) \<noteq> None"
    by (simp add: get_row_same_frame)
  from update_cell_ok [OF row, of "Num (c0 + int k)" "\<lambda>old. js_bitor old (item (glyph_bitmap g ! y) k)"]
  obtain t' where t': "update_cell (Num (rs + int y)) (Num (c0 + int k))
        (\<lambda>old. js_bitor old (item (glyph_bitmap g ! y) k)) t = Inr t'"
      "same_frame t t'"
      "\<forall>r c. cell t' r c =
         (if r = Num (rs + int y) \<and> c = Num (c0 + int k)
          then Some (js_bitor (cell t (Num (rs + int y)) (Num (c0 + int k))) (item (glyph_bitmap g ! y) k))
          else cell t r c)"
    by (auto simp: same_frame_def)
  from row len assms(1) t'(1) have "draw_bit g b (Num rs) xpos y k t = Inr t'"
    by (auto simp: draw_bit_def Let_def item_def split: option.splits)
  with t'(2,3)
  show "\<exists>t'. draw_bit g b (Num rs) xpos y k t = Inr t' \<and> same_frame t t' \<and>
      (\<forall>r c. cell t' r c =
         (if r = Num (rs + int y) \<and> c = Num (c0 + int k)
          then Some (js_bitor (cell t r c) (item (glyph_bitmap g ! y) k)) else cell t r c))"
    by auto
qed

lemma cell_new_bitmap: "cell (new_bitmap height) r c = None"
  by (cases r; cases c) (auto simp: cell_def get_row_def new_bitmap_def empty_array_def upto_def)

lemma cell_bitmap_width_update: "cell (bm\<lparr>bitmap_width := v\<rparr>) r c = cell bm r c"
  by (cases r) (simp_all add: cell_def get_row_def)

text \<open>
  Claim C3, as stated: a single glyph whose box begins left of the origin is drawn
  after as many blank columns as the box is left of it. It fails: the glyph whose
  box is three columns left of the origin has its ink in the columns 0 and 1 of the
  result; the three columns made for the offset are the blank ones on the right.
\<close>

theorem negative_origin_ink_at_column_0:
  "glyph_boundingBox glyph_N = Some \<lparr>box_width = Num 2, box_height = Num 1, box_x = Num (- 3), box_y = Num 0\<rparr> \<and>
   writeText font_N ''A'' None None =
     (Inr \<lparr>bitmap_width = Num 5, bitmap_height = Num 1,
           bitmap_rows = [\<lparr>elems = [Some 1, Some 1, Some 0, Some 0, Some 0], props = []\<rparr>]\<rparr>, None)"
  by (simp add: font_N_def meta_A_def glyph_N_def write_defs)

text \<open>
  Claim C3, amended. For a text of one character whose glyph can be stamped and has
  its box \<open>- gx\<close> columns left of the origin, \<^verbatim>\<open>writeText\<close> returns a bitmap of width
  \<open>max deviceWidthX width - gx\<close>: \<open>xpos\<close> is moved to \<open>- gx\<close>, so the box of the glyph
  begins at column 0. The cell in row \<open>rowStart + y\<close> and column \<open>x\<close> holds the bit
  \<open>(y, x)\<close> of the glyph, and every other cell is 0.
\<close>

theorem writeText_negative_origin:
  assumes "bdf_meta this = Some m" and "meta_boundingBox m = Some fb"
    and "bdf_glyphs this = Some gs"
    and "resolve_glyph m gs (of_char c) = Inr (Some g)"
    and "glyph_boundingBox g = Some b"
    and "box_x b = Num gx" and "gx < 0"
    and "box_width b = Num w" and "box_height b = Num h"
    and "deviceWidthX g = Some (Num dw)"
    and "row_start fb b = Num rs"
    and "stampable fb g"
  shows "\<exists>bm. writeText this [c] None None = (Inr bm, None) \<and>
      bitmap_width bm = Num (max dw w - gx) \<and>
      bitmap_height bm = box_height fb \<and>
      length (bitmap_rows bm) = count (box_height fb) \<and>
      (\<forall>r col. 0 \<le> r \<and> r < int (count (box_height fb)) \<and> 0 \<le> col \<and> col < max dw w - gx \<longrightarrow>
         cell bm (Num r) (Num col) =
           Some (if rs \<le> r \<and> r < rs + h \<and> col < w
                 then js_bitor (Some 0) (item (glyph_bitmap g ! nat (r - rs)) (nat col)) else 0))"
proof -
  let ?H = "count (box_height fb)"
  let ?bm0 = "new_bitmap (box_height fb)"
  let ?cta = "Num (max dw w - gx)"
  have len0: "length (bitmap_rows ?bm0) = ?H" and w0: "bitmap_width ?bm0 = Num 0"
    and h0: "bitmap_height ?bm0 = box_height fb"
    by (simp_all add: new_bitmap_def upto_def)
  from extend_bitmap_stamped [of "box_height fb" ?bm0 0 ?cta] len0 w0
  obtain bm1 where bm1: "extend_bitmap (box_height fb) ?cta ?bm0 = Inr bm1"
      "stamped ?bm0 0 0 (count ?cta) (\<lambda>_ _ _. 0) ?H 0 bm1"
    by auto
  let ?bm2 = "bm1\<lparr>bitmap_width := ?cta\<rparr>"
  from bm1(2) w0 have w1: "bitmap_width bm1 = Num 0"
    by (simp add: stamped_def same_frame_def)
  from bm1(2) len0 have len2: "length (bitmap_rows ?bm2) = ?H"
    by (simp add: stamped_def same_frame_def)
  have cell2: "cell ?bm2 (Num r) (Num col) =
      (if 0 \<le> r \<and> r < int ?H \<and> 0 \<le> col \<and> col < max dw w - gx then Some 0 else None)" for r col
    using bm1(2) by (auto simp: stamped_def cell_bitmap_width_update cell_new_bitmap)
  from stampable_rows [OF assms(12,5) len2] assms(11)
  have rows: "count (box_width b) = 0 \<or> count (box_height b) = 0 \<or>
      (count (box_height b) \<le> length (glyph_bitmap g) \<and>
       (\<forall>y < count (box_height b). get_row ?bm2 (js_add (Num rs) (Num (int y))) \<noteq> None))"
    by simp
  have "js_add (Num (- gx)) (box_x b) = Num 0"
    using assms(6) by simp
  from draw_glyph_stamped [OF this rows]
  obtain bm3 where bm3: "draw_glyph g b (Num rs) (Num (- gx)) ?bm2 = Inr bm3"
      "stamped ?bm2 rs 0 (count (box_width b)) (\<lambda>y k old. js_bitor old (item (glyph_bitmap g ! y) k))
        (count (box_height b)) 0 bm3"
    by blast
  have char: "write_char m (Some gs) (box_height fb) (js_add (box_height fb) (box_y fb)) (Num 0) c
      (?bm0, Num 0) = Inr (bm3, js_add (Num (- gx)) (js_add (Num dw) (Num 0)))"
    unfolding write_char_def Let_def
    using assms(4-11) bm1(1) bm3(1) w0 w1
    by (simp add: row_start_def)
  have run: "writeText this [c] None None = (Inr bm3, None)"
    using assms(1-3) char
    by (subst writeText.simps) (simp add: write_pass_def Let_def)
  from bm3(2) bm1(2) have frame: "bitmap_width bm3 = ?cta" "bitmap_height bm3 = box_height fb"
      "length (bitmap_rows bm3) = ?H"
    using len0 h0 by (simp_all add: stamped_def same_frame_def)
  have cells: "cell bm3 (Num r) (Num col) =
      Some (if rs \<le> r \<and> r < rs + h \<and> col < w
            then js_bitor (Some 0) (item (glyph_bitmap g ! nat (r - rs)) (nat col)) else 0)"
    if "0 \<le> r" "r < int ?H" "0 \<le> col" "col < max dw w - gx" for r col
  proof -
    from bm3(2) have "cell bm3 (Num r) (Num col) =
        (if rs \<le> r \<and> 0 \<le> col \<and> col < 0 + int (count (box_width b)) \<and>
            (r < rs + int (count (box_height b)) \<or> r = rs + int (count (box_height b)) \<and> col < 0 + int 0)
         then Some (js_bitor (cell ?bm2 (Num r) (Num col)) (item (glyph_bitmap g ! nat (r - rs)) (nat (col - 0))))
         else cell ?bm2 (Num r) (Num col))"
      unfolding stamped_def by blast
    with that assms(8,9) show ?thesis
      by (auto simp: cell2)
  qed
  from run frame cells show ?thesis by blast
qed

theorem writeText_negative_origin_witness:
  "resolve_glyph meta_A [(Some (Num 65), glyph_N)] (of_char CHR ''A'') = Inr (Some glyph_N) \<and>
   stampable \<lparr>box_width = Num 2, box_height = Num 1, box_x = Num 0, box_y = Num 0\<rparr> glyph_N \<and>
   (\<exists>bm. writeText font_N ''A'' None None = (Inr bm, None) \<and> bitmap_width bm = Num 5 \<and>
      cell bm (Num 0) (Num 0) = Some 1 \<and> cell bm (Num 0) (Num 1) = Some 1 \<and>
      cell bm (Num 0) (Num 2) = Some 0 \<and> cell bm (Num 0) (Num 3) = Some 0 \<and>
      cell bm (Num 0) (Num 4) = Some 0)"
proof -
  let ?fb = "\<lparr>box_width = Num 2, box_height = Num 1, box_x = Num 0, box_y = Num 0\<rparr>"
  let ?b = "\<lparr>box_width = Num 2, box_height = Num 1, box_x = Num (- 3), box_y = Num 0\<rparr>"
  have m: "bdf_meta font_N = Some meta_A" and gs: "bdf_glyphs font_N = Some [(Some (Num 65), glyph_N)]"
    by (simp_all add: font_N_def)
  have fb: "meta_boundingBox meta_A = Some ?fb"
    by (simp add: meta_A_def)
  have res: "resolve_glyph meta_A [(Some (Num 65), glyph_N)] (of_char CHR ''A'') = Inr (Some glyph_N)"
    by (simp add: resolve_glyph_def glyph_at_def)
  have b: "glyph_boundingBox glyph_N = Some ?b" and dw: "deviceWidthX glyph_N = Some (Num 2)"
    by (simp_all add: glyph_N_def)
  have rs: "row_start ?fb ?b = Num 0"
    by (simp add: row_start_def)
  have st: "stampable ?fb glyph_N"
    by (simp add: glyph_N_def stamp_defs)
  from writeText_negative_origin [OF m fb gs res b _ _ _ _ dw rs st, of "- 3" 2 1]
  obtain bm where bm: "writeText font_N ''A'' None None = (Inr bm, None)" "bitmap_width bm = Num 5"
    and cells: "\<forall>r col. 0 \<le> r \<and> r < 1 \<and> 0 \<le> col \<and> col < 5 \<longrightarrow>
         cell bm (Num r) (Num col) =
           Some (if 0 \<le> r \<and> r < 1 \<and> col < 2
                 then js_bitor (Some 0) (item (glyph_bitmap glyph_N ! nat r) (nat col)) else 0)"
    by auto
  from cells [rule_format, of 0 0] cells [rule_format, of 0 1] cells [rule_format, of 0 2]
    cells [rule_format, of 0 3] cells [rule_format, of 0 4]
  have "cell bm (Num 0) (Num 0) = Some 1 \<and> cell bm (Num 0) (Num 1) = Some 1 \<and>
      cell bm (Num 0) (Num 2) = Some 0 \<and> cell bm (Num 0) (Num 3) = Some 0 \<and>
      cell bm (Num 0) (Num 4) = Some 0"
    by (simp add: glyph_N_def js_bitor_def toInt32_def item_def)
  with bm res st show ?thesis by blast
qed

end
